theory Spec2Isabelle
  imports Complex_Main
begin

section \<open>Data model\<close>

text \<open>
  JSON values as Python's \<open>json\<close> module and \<open>requests\<close> hand them to the program.
  A JSON object is a Python dict; it is kept as an association list read with \<open>map_of\<close>.
\<close>

datatype json =
    JNull
  | JBool bool
  | JInt int
  | JFloat real
  | JStr string
  | JArr "json list"
  | JObj "(string \<times> json) list"

text \<open>
  \<open>bot/analysis.py\<close>, class \<open>Requirement\<close>. The ticket engine receives the dicts made by
  \<open>r.dict()\<close> in \<open>bot/slack_handlers.py\<close>, so every key is present and an optional field
  that was not supplied holds \<open>None\<close>. The field \<open>id\<close> is named \<open>req_id\<close> here.
\<close>

record requirement =
  req_id :: string
  title :: string
  description :: "string option"
  priority :: "string option"
  assignee :: "string option"
  estimated_hours :: "int option"
  acceptance_criteria :: "string list"

text \<open>\<open>bot/analysis.py\<close>, class \<open>RequirementExtractionResponse\<close>.\<close>

record extraction_response =
  requirements :: "requirement list"
  document_summary :: "string option"
  total_requirements :: int

text \<open>
  The exceptions the modelled code can raise, as values. \<open>JiraApiError err2\<close> and
  \<open>JiraApiErrorFields messages field_errors\<close> are the two \<open>raise Exception(...)\<close> of the
  ticket engine; \<open>NoContentError\<close> and \<open>CouldNotParseJSON\<close> are the two \<open>ValueError\<close>s
  that \<open>analyze_with_openai\<close> raises itself, told apart by their message;
  \<open>ValidationError\<close> is the one of pydantic; the others carry Python's names.
\<close>

datatype error =
    HTTPError int
  | JiraApiError json
  | JiraApiErrorFields json json
  | JSONDecodeError
  | ValueError
  | OverflowError
  | KeyError
  | TypeError
  | AttributeError
  | NoContentError
  | CouldNotParseJSON
  | ValidationError

section \<open>Ticket creation: \<open>bot/jira_integration.py\<close>\<close>

text \<open>\<open>format_adf_description\<close>: one paragraph holding one text node.\<close>

datatype adf_inline = AdfText "string option"
datatype adf_block = Paragraph "adf_inline list"
datatype adf = Doc int "adf_block list"

definition format_adf_description :: "string option \<Rightarrow> adf" where
  "format_adf_description text = Doc 1 [Paragraph [AdfText text]]"

text \<open>
  The dict \<open>fields\<close> of the request payload. A key that the code does not set is \<open>None\<close>.
  \<open>f_timetracking\<close> holds the number \<open>n\<close> of the string \<open>"{n}h"\<close>.
\<close>

record issue_fields =
  f_project :: "string option"
  f_summary :: string
  f_description :: adf
  f_issuetype :: string
  f_labels :: "string list"
  f_priority :: "string option"
  f_assignee :: "string option"
  f_timetracking :: "int option"

text \<open>
  What the code reads of a \<open>requests\<close> response: the status code, the \<open>Retry-After\<close>
  header, and the body as \<open>resp.json()\<close> decodes it (\<open>None\<close> when it raises).
\<close>

record response =
  status_code :: int
  retry_after :: "string option"
  body :: "json option"

record config =
  JIRA_URL :: "string option"
  JIRA_PROJECT_KEY :: "string option"

text \<open>
  The world outside the function: the tracker answers the \<open>n\<close>-th POST of a run with
  \<open>tracker n payload\<close>; \<open>jitter k\<close> is the \<open>k\<close>-th value of \<open>random.random()\<close>;
  \<open>float_add n x\<close> is Python's \<open>n + x\<close> for an int \<open>n\<close> and a float \<open>x\<close>, that is the
  binary64 sum with its rounding (\<open>None\<close> when \<open>n\<close> is too large to convert and the
  addition raises \<open>OverflowError\<close>);
  \<open>py_int\<close> is Python's \<open>int()\<close> on a string (\<open>None\<close> when it raises \<open>ValueError\<close>);
  \<open>max_sleep\<close> is the longest delay \<open>time.sleep\<close> takes before raising \<open>OverflowError\<close>.
\<close>

record env =
  cfg :: config
  tracker :: "nat \<Rightarrow> issue_fields \<Rightarrow> response"
  jitter :: "nat \<Rightarrow> real"
  float_add :: "int \<Rightarrow> real \<Rightarrow> real option"
  py_int :: "string \<Rightarrow> int option"
  max_sleep :: real

text \<open>The effects of a run: the payloads posted and the delays slept, both in order.\<close>

record effects =
  posts :: "issue_fields list"
  sleeps :: "real list"

text \<open>
  One row of the result. \<open>jira_url\<close> is the pair \<open>(base, key)\<close> of the string
  \<open>"{base}/browse/{key}"\<close>.
\<close>

record created_task =
  requirement_id :: string
  jira_key :: json
  jira_url :: "string \<times> json"

definition PRIORITY_MAPPING :: "string \<Rightarrow> string option" where
  "PRIORITY_MAPPING =
     [''Critical'' \<mapsto> ''High'', ''Major'' \<mapsto> ''Medium'', ''Minor'' \<mapsto> ''Low'']"

definition rstrip_slash :: "string \<Rightarrow> string" where
  "rstrip_slash s = rev (dropWhile (\<lambda>c. c = CHR ''/'') (rev s))"

definition base_url :: "config \<Rightarrow> string" where
  "base_url c = rstrip_slash (case JIRA_URL c of None \<Rightarrow> [] | Some u \<Rightarrow> u)"

text \<open>Python truthiness of an optional string and of an optional integer.\<close>

definition truthy_str :: "string option \<Rightarrow> bool" where
  "truthy_str v = (case v of None \<Rightarrow> False | Some s \<Rightarrow> s \<noteq> [])"

definition truthy_int :: "int option \<Rightarrow> bool" where
  "truthy_int v = (case v of None \<Rightarrow> False | Some n \<Rightarrow> n \<noteq> 0)"

definition build_fields :: "config \<Rightarrow> requirement \<Rightarrow> issue_fields" where
  "build_fields c req =
     \<lparr> f_project = JIRA_PROJECT_KEY c,
       f_summary = title req,
       f_description = format_adf_description (description req),
       f_issuetype = ''Task'',
       f_labels = [''automated'', ''prd-generated''],
       f_priority =
         (case priority req of
            None \<Rightarrow> None
          | Some raw_prio \<Rightarrow>
              if truthy_str (Some raw_prio)
              then Some (case PRIORITY_MAPPING raw_prio of None \<Rightarrow> raw_prio | Some p \<Rightarrow> p)
              else None),
       f_assignee = (if truthy_str (assignee req) then assignee req else None),
       f_timetracking =
         (if truthy_int (estimated_hours req) then estimated_hours req else None) \<rparr>"

definition post :: "env \<Rightarrow> issue_fields \<Rightarrow> effects \<Rightarrow> response \<times> effects" where
  "post e p st = (tracker e (length (posts st)) p, st\<lparr>posts := posts st @ [p]\<rparr>)"

text \<open>\<open>resp.raise_for_status()\<close>: raises for a 4xx or 5xx status, returns otherwise.\<close>

definition raise_for_status :: "response \<Rightarrow> error option" where
  "raise_for_status r =
     (if 400 \<le> status_code r \<and> status_code r < 600 then Some (HTTPError (status_code r))
      else None)"

text \<open>\<open>issue = resp.json(); key = issue["key"]\<close> and the row appended to \<open>created_tasks\<close>.\<close>

definition issue_key :: "response \<Rightarrow> error + json" where
  "issue_key r =
     (case body r of
        None \<Rightarrow> Inl JSONDecodeError
      | Some (JObj kvs) \<Rightarrow> (case map_of kvs ''key'' of None \<Rightarrow> Inl KeyError | Some k \<Rightarrow> Inr k)
      | Some _ \<Rightarrow> Inl TypeError)"

definition make_task :: "config \<Rightarrow> requirement \<Rightarrow> response \<Rightarrow> error + created_task" where
  "make_task c req r =
     (case issue_key r of
        Inl x \<Rightarrow> Inl x
      | Inr k \<Rightarrow> Inr \<lparr> requirement_id = req_id req, jira_key = k, jira_url = (base_url c, k) \<rparr>)"

text \<open>\<open>d.get(k, default)\<close> on a decoded body; a body that is not a dict has no \<open>get\<close>.\<close>

definition json_get :: "json \<Rightarrow> string \<Rightarrow> json \<Rightarrow> error + json" where
  "json_get j k dflt =
     (case j of
        JObj kvs \<Rightarrow> Inr (case map_of kvs k of None \<Rightarrow> dflt | Some v \<Rightarrow> v)
      | _ \<Rightarrow> Inl AttributeError)"

fun contains_str :: "string \<Rightarrow> string \<Rightarrow> bool" where
  "contains_str [] sub = (sub = [])"
| "contains_str (c # cs) sub = (take (length sub) (c # cs) = sub \<or> contains_str cs sub)"

text \<open>The test \<open>"priority" in field_errors\<close>, for each kind of value Python decodes.\<close>

definition priority_in :: "json \<Rightarrow> error + bool" where
  "priority_in fe =
     (case fe of
        JObj kvs \<Rightarrow> Inr (''priority'' \<in> set (map fst kvs))
      | JArr xs \<Rightarrow> Inr (JStr ''priority'' \<in> set xs)
      | JStr s \<Rightarrow> Inr (contains_str s ''priority'')
      | _ \<Rightarrow> Inl TypeError)"

text \<open>
  \<open>err = {}; try: err = resp.json() except ValueError: resp.raise_for_status()\<close>:
  the decoded body, or the raised error, or the empty dict when nothing is raised.
\<close>

definition error_body :: "response \<Rightarrow> error + json" where
  "error_body r =
     (case body r of
        Some j \<Rightarrow> Inr j
      | None \<Rightarrow> (case raise_for_status r of Some x \<Rightarrow> Inl x | None \<Rightarrow> Inr (JObj [])))"

text \<open>The branch taken when the priority field was rejected: drop it and post once more.\<close>

definition retry_without_priority ::
  "env \<Rightarrow> requirement \<Rightarrow> issue_fields \<Rightarrow> effects \<Rightarrow> (error + created_task option) \<times> effects" where
  "retry_without_priority e req payload st =
     (let (resp2, st2) = post e (payload\<lparr>f_priority := None\<rparr>) st in
      if status_code resp2 = 201
      then (case make_task (cfg e) req resp2 of
              Inl x \<Rightarrow> (Inl x, st2)
            | Inr t \<Rightarrow> (Inr (Some t), st2))
      else (case error_body resp2 of
              Inl x \<Rightarrow> (Inl x, st2)
            | Inr err2 \<Rightarrow>
                (case json_get err2 ''errorMessages'' (JArr []) of
                   Inl x \<Rightarrow> (Inl x, st2)
                 | Inr _ \<Rightarrow> (Inl (JiraApiError err2), st2))))"

text \<open>The branch \<open>else\<close> of the status test: any status other than 201 and 429.\<close>

definition other_error ::
  "env \<Rightarrow> requirement \<Rightarrow> issue_fields \<Rightarrow> response \<Rightarrow> effects \<Rightarrow>
   (error + created_task option) \<times> effects" where
  "other_error e req payload resp st =
     (case error_body resp of
        Inl x \<Rightarrow> (Inl x, st)
      | Inr err \<Rightarrow>
          (case json_get err ''errorMessages'' (JArr []) of
             Inl x \<Rightarrow> (Inl x, st)
           | Inr messages \<Rightarrow>
               (case json_get err ''errors'' (JObj []) of
                  Inl x \<Rightarrow> (Inl x, st)
                | Inr field_errors \<Rightarrow>
                    (case priority_in field_errors of
                       Inl x \<Rightarrow> (Inl x, st)
                     | Inr True \<Rightarrow> retry_without_priority e req payload st
                     | Inr False \<Rightarrow> (Inl (JiraApiErrorFields messages field_errors), st)))))"

definition max_retries :: nat where
  "max_retries = 3"

text \<open>\<open>int(resp.headers.get("Retry-After", 60))\<close>.\<close>

definition read_retry_after :: "env \<Rightarrow> response \<Rightarrow> error + int" where
  "read_retry_after e r =
     (case retry_after r of
        None \<Rightarrow> Inr 60
      | Some s \<Rightarrow> (case py_int e s of None \<Rightarrow> Inl ValueError | Some n \<Rightarrow> Inr n))"

text \<open>\<open>wait = retry_after + random.random(); time.sleep(wait)\<close>.\<close>

definition sleep_jittered :: "env \<Rightarrow> int \<Rightarrow> effects \<Rightarrow> error + effects" where
  "sleep_jittered e n st =
     (case float_add e n (jitter e (length (sleeps st))) of
        None \<Rightarrow> Inl OverflowError
      | Some wait \<Rightarrow>
          if wait < 0 then Inl ValueError
          else if max_sleep e < wait then Inl OverflowError
          else Inr (st\<lparr>sleeps := sleeps st @ [wait]\<rparr>))"

text \<open>
  The loop \<open>for attempt in range(max_retries + 1)\<close> from iteration \<open>attempt\<close> on.
  \<open>Inr (Some t)\<close> is a \<open>break\<close> after appending \<open>t\<close>; \<open>Inr None\<close> is the loop running
  out without a \<open>break\<close>; \<open>Inl\<close> is a raised exception.
\<close>

function attempt_loop ::
  "env \<Rightarrow> requirement \<Rightarrow> issue_fields \<Rightarrow> nat \<Rightarrow> effects \<Rightarrow> (error + created_task option) \<times> effects"
where
  "attempt_loop e req payload attempt st =
     (if max_retries + 1 \<le> attempt then (Inr None, st)
      else
        (let (resp, st1) = post e payload st in
         if status_code resp = 201
         then (case make_task (cfg e) req resp of
                 Inl x \<Rightarrow> (Inl x, st1)
               | Inr t \<Rightarrow> (Inr (Some t), st1))
         else if status_code resp = 429
         then (case read_retry_after e resp of
                 Inl x \<Rightarrow> (Inl x, st1)
               | Inr n \<Rightarrow>
                   if attempt < max_retries
                   then (case sleep_jittered e n st1 of
                           Inl x \<Rightarrow> (Inl x, st1)
                         | Inr st2 \<Rightarrow> attempt_loop e req payload (Suc attempt) st2)
                   else (case raise_for_status resp of
                           Some x \<Rightarrow> (Inl x, st1)
                         | None \<Rightarrow> attempt_loop e req payload (Suc attempt) st1))
         else other_error e req payload resp st1))"
  by pat_completeness auto
termination
  by (relation "measure (\<lambda>(e, req, payload, attempt, st). (max_retries + 1) - attempt)") auto

declare attempt_loop.simps [simp del]

text \<open>
  The loop \<open>for req in requirements\<close> with the list \<open>created_tasks\<close> built so far.
  An exception leaves the function with no return value: the list is lost.
\<close>

fun tasks_loop ::
  "env \<Rightarrow> requirement list \<Rightarrow> created_task list \<Rightarrow> effects \<Rightarrow>
   (error + created_task list) \<times> effects" where
  "tasks_loop e [] created st = (Inr created, st)"
| "tasks_loop e (req # rest) created st =
     (case attempt_loop e req (build_fields (cfg e) req) 0 st of
        (Inl x, st') \<Rightarrow> (Inl x, st')
      | (Inr None, st') \<Rightarrow> tasks_loop e rest created st'
      | (Inr (Some t), st') \<Rightarrow> tasks_loop e rest (created @ [t]) st')"

definition create_jira_tasks ::
  "env \<Rightarrow> requirement list \<Rightarrow> effects \<Rightarrow> (error + created_task list) \<times> effects" where
  "create_jira_tasks e reqs st = tasks_loop e reqs [] st"

section \<open>The pending-review cache and the handlers: \<open>bot/slack_handlers.py\<close>\<close>

text \<open>\<open>ANALYSIS_CACHE\<close>: a dict from the key string to the list of requirement dicts.\<close>

type_synonym cache = "string \<rightharpoonup> requirement list"

text \<open>\<open>ANALYSIS_CACHE[cache_key] = [r.dict() for r in analysis.requirements]\<close>.\<close>

definition cache_put :: "string \<Rightarrow> requirement list \<Rightarrow> cache \<Rightarrow> cache" where
  "cache_put cache_key reqs c = c(cache_key \<mapsto> reqs)"

text \<open>\<open>ANALYSIS_CACHE.pop(cache_key, None)\<close>: the value read and the dict without the key.\<close>

definition cache_pop :: "string \<Rightarrow> cache \<Rightarrow> requirement list option \<times> cache" where
  "cache_pop cache_key c = (c cache_key, c(cache_key := None))"

text \<open>
  The messages the handlers post. \<open>CreatedTasks\<close> carries, for each line of the message,
  the url, the key and the requirement id it is formatted from.
\<close>

datatype slack_message =
    NoLongerCached
  | CreatedTasks "((string \<times> json) \<times> json \<times> string) list"
  | FailedToCreate
  | AnalysisComplete string int "(string \<times> string \<times> string option) list"
  | UnexpectedError

text \<open>
  \<open>handle_create_tasks\<close>, from the cache key of the pressed button on. Every exception
  raised inside the \<open>try\<close> ends in the same message.
\<close>

definition handle_create_tasks ::
  "env \<Rightarrow> string \<Rightarrow> cache \<Rightarrow> effects \<Rightarrow> slack_message \<times> cache \<times> effects" where
  "handle_create_tasks e cache_key c st =
     (case cache_pop cache_key c of
        (None, c') \<Rightarrow> (NoLongerCached, c', st)
      | (Some reqs, c') \<Rightarrow>
          (case create_jira_tasks e reqs st of
             (Inl x, st') \<Rightarrow> (FailedToCreate, c', st')
           | (Inr created, st') \<Rightarrow>
               (CreatedTasks (map (\<lambda>item. (jira_url item, jira_key item, requirement_id item))
                                  created), c', st')))"

section \<open>The response parser: \<open>bot/analysis.py\<close>\<close>

text \<open>
  The model's output is a Python \<open>str\<close>: a sequence of Unicode code points, kept as
  natural numbers so that every character \<open>str.strip\<close> and \<open>str.splitlines\<close> react to
  is present.
\<close>

type_synonym pystr = "nat list"

text \<open>The code points for which \<open>str.isspace\<close> holds; \<open>str.strip()\<close> removes them.\<close>

definition is_space :: "nat \<Rightarrow> bool" where
  "is_space c \<longleftrightarrow>
     (9 \<le> c \<and> c \<le> 13) \<or> (28 \<le> c \<and> c \<le> 32) \<or> c = 133 \<or> c = 160 \<or> c = 5760 \<or>
     (8192 \<le> c \<and> c \<le> 8202) \<or> c = 8232 \<or> c = 8233 \<or> c = 8239 \<or> c = 8287 \<or> c = 12288"

text \<open>The line boundaries of \<open>str.splitlines\<close>.\<close>

definition is_linebreak :: "nat \<Rightarrow> bool" where
  "is_linebreak c \<longleftrightarrow>
     (10 \<le> c \<and> c \<le> 13) \<or> (28 \<le> c \<and> c \<le> 30) \<or> c = 133 \<or> c = 8232 \<or> c = 8233"

abbreviation not_linebreak :: "nat \<Rightarrow> bool" where
  "not_linebreak \<equiv> (\<lambda>c. \<not> is_linebreak c)"

definition lstrip :: "pystr \<Rightarrow> pystr" where
  "lstrip s = dropWhile is_space s"

definition rstrip :: "pystr \<Rightarrow> pystr" where
  "rstrip s = rev (dropWhile is_space (rev s))"

definition py_strip :: "pystr \<Rightarrow> pystr" where
  "py_strip s = rstrip (lstrip s)"

text \<open>
  What follows a line's end: the boundary is skipped, and a carriage return directly
  followed by a line feed counts as one boundary.
\<close>

fun after_break :: "pystr \<Rightarrow> pystr" where
  "after_break [] = []"
| "after_break (c # r) = (if c = 13 \<and> take 1 r = [10] then drop 1 r else r)"

function splitlines :: "pystr \<Rightarrow> pystr list" where
  "splitlines s =
     (if s = [] then []
      else takeWhile (\<lambda>c. \<not> is_linebreak c) s
           # splitlines (after_break (dropWhile (\<lambda>c. \<not> is_linebreak c) s)))"
  by pat_completeness auto
termination
proof (relation "measure length")
  show "wf (measure length)" by simp
next
  fix s :: pystr
  assume ne: "s \<noteq> []"
  let ?d = "dropWhile (\<lambda>c. \<not> is_linebreak c) s"
  have d: "length ?d \<le> length s" by (rule length_dropWhile_le)
  show "(after_break ?d, s) \<in> measure length"
  proof (cases ?d)
    case Nil
    show ?thesis unfolding Nil using ne by simp
  next
    case (Cons c r)
    have "length (after_break (c # r)) \<le> length r" by simp
    with d Cons show ?thesis by simp
  qed
qed

declare splitlines.simps [simp del]

fun join_nl :: "pystr list \<Rightarrow> pystr" where
  "join_nl [] = []"
| "join_nl [l] = l"
| "join_nl (l # ls) = l @ 10 # join_nl ls"

text \<open>The three backticks of \<open>startswith("```")\<close>.\<close>

definition fence :: pystr where
  "fence = [96, 96, 96]"

definition startswith :: "pystr \<Rightarrow> pystr \<Rightarrow> bool" where
  "startswith l p \<longleftrightarrow> take (length p) l = p"

definition strip_code_fences :: "pystr \<Rightarrow> pystr" where
  "strip_code_fences s =
     (let lines = splitlines (py_strip s);
          lines1 = (if lines \<noteq> [] \<and> startswith (hd lines) fence then tl lines else lines);
          lines2 = (if lines1 \<noteq> [] \<and> startswith (last lines1) fence then butlast lines1
                    else lines1)
      in join_nl lines2)"

text \<open>
  The libraries the parser calls: \<open>json_loads\<close> is \<open>json.loads\<close>, with
  \<open>Inl JSONDecodeError\<close> for the exception the code catches and any other \<open>Inl\<close> for one
  it does not; \<open>as_str\<close>, \<open>as_int\<close> and \<open>as_dict\<close> are pydantic's validation of a value
  for a \<open>str\<close> field, an \<open>int\<close> field and a nested model (\<open>None\<close>: the value is rejected).
\<close>

record parser_env =
  json_loads :: "pystr \<Rightarrow> error + json"
  as_str :: "json \<Rightarrow> string option"
  as_int :: "json \<Rightarrow> int option"
  as_dict :: "json \<Rightarrow> (string \<times> json) list option"

text \<open>A field without default, a field \<open>Optional[...] = None\<close>, and a \<open>List[str]\<close> field.\<close>

definition required_field ::
  "(string \<times> json) list \<Rightarrow> string \<Rightarrow> (json \<Rightarrow> 'a option) \<Rightarrow> error + 'a" where
  "required_field kvs k conv =
     (case map_of kvs k of
        None \<Rightarrow> Inl ValidationError
      | Some j \<Rightarrow> (case conv j of None \<Rightarrow> Inl ValidationError | Some x \<Rightarrow> Inr x))"

definition optional_field ::
  "(string \<times> json) list \<Rightarrow> string \<Rightarrow> (json \<Rightarrow> 'a option) \<Rightarrow> error + 'a option" where
  "optional_field kvs k conv =
     (case map_of kvs k of
        None \<Rightarrow> Inr None
      | Some JNull \<Rightarrow> Inr None
      | Some j \<Rightarrow> (case conv j of None \<Rightarrow> Inl ValidationError | Some x \<Rightarrow> Inr (Some x)))"

fun all_some :: "'a option list \<Rightarrow> 'a list option" where
  "all_some [] = Some []"
| "all_some (None # xs) = None"
| "all_some (Some x # xs) = (case all_some xs of None \<Rightarrow> None | Some ys \<Rightarrow> Some (x # ys))"

definition str_list_field ::
  "(string \<times> json) list \<Rightarrow> string \<Rightarrow> (json \<Rightarrow> string option) \<Rightarrow> error + string list" where
  "str_list_field kvs k conv =
     (case map_of kvs k of
        None \<Rightarrow> Inr []
      | Some (JArr xs) \<Rightarrow>
          (case all_some (map conv xs) of None \<Rightarrow> Inl ValidationError | Some ys \<Rightarrow> Inr ys)
      | Some _ \<Rightarrow> Inl ValidationError)"

text \<open>Validation of one element of \<open>requirements\<close> against the class \<open>Requirement\<close>.\<close>

definition validate_requirement :: "parser_env \<Rightarrow> json \<Rightarrow> error + requirement" where
  "validate_requirement p j =
     (case as_dict p j of
        None \<Rightarrow> Inl ValidationError
      | Some kvs \<Rightarrow>
          (case (required_field kvs ''id'' (as_str p),
                 required_field kvs ''title'' (as_str p),
                 optional_field kvs ''description'' (as_str p),
                 optional_field kvs ''priority'' (as_str p),
                 optional_field kvs ''assignee'' (as_str p),
                 optional_field kvs ''estimated_hours'' (as_int p),
                 str_list_field kvs ''acceptance_criteria'' (as_str p)) of
             (Inr i, Inr t, Inr d, Inr pr, Inr a, Inr h, Inr ac) \<Rightarrow>
               Inr \<lparr> req_id = i, title = t, description = d, priority = pr, assignee = a,
                     estimated_hours = h, acceptance_criteria = ac \<rparr>
           | _ \<Rightarrow> Inl ValidationError))"

fun validate_all :: "parser_env \<Rightarrow> json list \<Rightarrow> error + requirement list" where
  "validate_all p [] = Inr []"
| "validate_all p (j # js) =
     (case (validate_requirement p j, validate_all p js) of
        (Inr r, Inr rs) \<Rightarrow> Inr (r # rs)
      | _ \<Rightarrow> Inl ValidationError)"

text \<open>
  \<open>RequirementExtractionResponse(**data)\<close>: \<open>**\<close> needs a mapping, then the fields are
  validated.
\<close>

definition validate_response :: "parser_env \<Rightarrow> json \<Rightarrow> error + extraction_response" where
  "validate_response p data =
     (case data of
        JObj kvs \<Rightarrow>
          (case (case map_of kvs ''requirements'' of
                   Some (JArr js) \<Rightarrow> validate_all p js
                 | _ \<Rightarrow> Inl ValidationError,
                 optional_field kvs ''document_summary'' (as_str p),
                 required_field kvs ''total_requirements'' (as_int p)) of
             (Inr rs, Inr s, Inr n) \<Rightarrow>
               Inr \<lparr> requirements = rs, document_summary = s, total_requirements = n \<rparr>
           | _ \<Rightarrow> Inl ValidationError)
      | _ \<Rightarrow> Inl TypeError)"

text \<open>
  \<open>analyze_with_openai\<close> from \<open>content_raw\<close> on: the content of the model's reply,
  \<open>None\<close> when the reply has none.
\<close>

definition analyze_with_openai :: "parser_env \<Rightarrow> pystr option \<Rightarrow> error + extraction_response" where
  "analyze_with_openai p content_raw =
     (case content_raw of
        None \<Rightarrow> Inl NoContentError
      | Some raw \<Rightarrow>
          if raw = [] then Inl NoContentError
          else (case json_loads p (strip_code_fences raw) of
                  Inl JSONDecodeError \<Rightarrow> Inl CouldNotParseJSON
                | Inl x \<Rightarrow> Inl x
                | Inr data \<Rightarrow> validate_response p data))"

text \<open>
  \<open>handle_message_events\<close> from the call of the analysis on, for the backend \<open>openai\<close>:
  \<open>cache_key\<close> is the string of the fresh \<open>uuid.uuid4()\<close>. An exception of the analysis
  ends in the message of the last \<open>except\<close> clause and leaves the cache as it was.
\<close>

definition handle_message_events ::
  "parser_env \<Rightarrow> string \<Rightarrow> pystr option \<Rightarrow> cache \<Rightarrow> slack_message \<times> cache" where
  "handle_message_events p cache_key content_raw c =
     (case analyze_with_openai p content_raw of
        Inl x \<Rightarrow> (UnexpectedError, c)
      | Inr analysis \<Rightarrow>
          (AnalysisComplete cache_key (total_requirements analysis)
             (map (\<lambda>r. (req_id r, title r, priority r)) (requirements analysis)),
           cache_put cache_key (requirements analysis) c))"

section \<open>Concrete inputs\<close>

definition example_config :: config where
  "example_config = \<lparr> JIRA_URL = Some ''https://t.example/'', JIRA_PROJECT_KEY = Some ''PRD'' \<rparr>"

definition req_R1 :: requirement where
  "req_R1 = \<lparr> req_id = ''R1'', title = ''Login'', description = Some ''Users log in'',
              priority = Some ''Critical'', assignee = None, estimated_hours = Some 5,
              acceptance_criteria = [''works''] \<rparr>"

definition req_R2 :: requirement where
  "req_R2 = \<lparr> req_id = ''R2'', title = ''Export'', description = None,
              priority = Some ''Urgent'', assignee = Some ''acc-1'', estimated_hours = None,
              acceptance_criteria = [] \<rparr>"

definition created_response :: "string \<Rightarrow> response" where
  "created_response k =
     \<lparr> status_code = 201, retry_after = None, body = Some (JObj [(''key'', JStr k)]) \<rparr>"

definition limited_response :: "string option \<Rightarrow> response" where
  "limited_response h = \<lparr> status_code = 429, retry_after = h, body = None \<rparr>"

definition priority_rejected_response :: response where
  "priority_rejected_response =
     \<lparr> status_code = 400, retry_after = None,
       body = Some (JObj [(''errorMessages'', JArr []),
                          (''errors'', JObj [(''priority'', JStr ''Priority name is not valid'')])]) \<rparr>"

definition summary_rejected_response :: response where
  "summary_rejected_response =
     \<lparr> status_code = 400, retry_after = None,
       body = Some (JObj [(''errorMessages'', JArr []),
                          (''errors'', JObj [(''summary'', JStr ''Summary is too long'')])]) \<rparr>"

definition example_py_int :: "string \<Rightarrow> int option" where
  "example_py_int s =
     (if s = ''2'' then Some 2 else if s = ''1'' then Some 1
      else if s = ''-5'' then Some (- 5) else None)"

definition example_env :: "(nat \<Rightarrow> issue_fields \<Rightarrow> response) \<Rightarrow> env" where
  "example_env t =
     \<lparr> cfg = example_config, tracker = t, jitter = (\<lambda>k. 1 / 2),
       float_add = (\<lambda>n x. Some (of_int n + x)), py_int = example_py_int,
       max_sleep = 1000000 \<rparr>"

definition no_effects :: effects where
  "no_effects = \<lparr> posts = [], sleeps = [] \<rparr>"

text \<open>A tracker that answers 429 twice, advising 2 and then 1 seconds, and then 201.\<close>

definition tracker_backoff :: "nat \<Rightarrow> issue_fields \<Rightarrow> response" where
  "tracker_backoff n p =
     (if n = 0 then limited_response (Some ''2'')
      else if n = 1 then limited_response (Some ''1'')
      else created_response ''PRD-1'')"


text \<open>
  A tracker that rejects the priority of the first payload and answers every later call
  with 429, advising 2 seconds.
\<close>

definition tracker_retry_limited :: "nat \<Rightarrow> issue_fields \<Rightarrow> response" where
  "tracker_retry_limited n p =
     (if n = 0 then priority_rejected_response else limited_response (Some ''2''))"

text \<open>Trackers that answer 429 with a date, and with a negative number, as \<open>Retry-After\<close>.\<close>

definition tracker_date_header :: "nat \<Rightarrow> issue_fields \<Rightarrow> response" where
  "tracker_date_header n p = limited_response (Some ''Wed, 21 Oct 2015 07:28:00 GMT'')"

definition tracker_negative_header :: "nat \<Rightarrow> issue_fields \<Rightarrow> response" where
  "tracker_negative_header n p = limited_response (Some ''-5'')"

text \<open>A tracker that creates the first ticket and rejects the summary of every later one.\<close>

definition tracker_second_fails :: "nat \<Rightarrow> issue_fields \<Rightarrow> response" where
  "tracker_second_fails n p =
     (if n = 0 then created_response ''PRD-1'' else summary_rejected_response)"

definition strict_str :: "json \<Rightarrow> string option" where
  "strict_str j = (case j of JStr s \<Rightarrow> Some s | _ \<Rightarrow> None)"

definition strict_int :: "json \<Rightarrow> int option" where
  "strict_int j = (case j of JInt n \<Rightarrow> Some n | _ \<Rightarrow> None)"

definition strict_dict :: "json \<Rightarrow> (string \<times> json) list option" where
  "strict_dict j = (case j of JObj kvs \<Rightarrow> Some kvs | _ \<Rightarrow> None)"

text \<open>
  The text \<open>{"requirements": [{"id": "R1", "title": "Login"}], "total_requirements": 1}\<close>
  and the value \<open>json.loads\<close> gives for it.
\<close>

definition example_text :: pystr where
  "example_text =
     [123, 34, 114, 101, 113, 117, 105, 114, 101, 109, 101, 110, 116, 115, 34, 58, 32, 91,
      123, 34, 105, 100, 34, 58, 32, 34, 82, 49, 34, 44, 32, 34, 116, 105, 116, 108, 101,
      34, 58, 32, 34, 76, 111, 103, 105, 110, 34, 125, 93, 44, 32, 34, 116, 111, 116, 97,
      108, 95, 114, 101, 113, 117, 105, 114, 101, 109, 101, 110, 116, 115, 34, 58, 32, 49,
      125]"

definition example_data :: json where
  "example_data =
     JObj [(''requirements'', JArr [JObj [(''id'', JStr ''R1''), (''title'', JStr ''Login'')]]),
           (''total_requirements'', JInt 1)]"

text \<open>
  The text \<open>{"requirements": [{"id": "R1"}], "total_requirements": 1}\<close>, whose only
  requirement has no title, and its value.
\<close>

definition missing_title_text :: pystr where
  "missing_title_text =
     [123, 34, 114, 101, 113, 117, 105, 114, 101, 109, 101, 110, 116, 115, 34, 58, 32, 91,
      123, 34, 105, 100, 34, 58, 32, 34, 82, 49, 34, 125, 93, 44, 32, 34, 116, 111, 116, 97,
      108, 95, 114, 101, 113, 117, 105, 114, 101, 109, 101, 110, 116, 115, 34, 58, 32, 49,
      125]"

definition missing_title_data :: json where
  "missing_title_data =
     JObj [(''requirements'', JArr [JObj [(''id'', JStr ''R1'')]]),
           (''total_requirements'', JInt 1)]"

text \<open>The text \<open>not json\<close>.\<close>

definition not_json_text :: pystr where
  "not_json_text = [110, 111, 116, 32, 106, 115, 111, 110]"

text \<open>The text \<open>[]\<close>: valid JSON that is not an object.\<close>

definition array_text :: pystr where
  "array_text = [91, 93]"

text \<open>A \<open>json.loads\<close> that knows the three JSON texts above, and strict validators.\<close>

definition example_parser :: parser_env where
  "example_parser =
     \<lparr> json_loads =
         (\<lambda>s. if s = example_text then Inr example_data
              else if s = missing_title_text then Inr missing_title_data
              else if s = array_text then Inr (JArr [])
              else Inl JSONDecodeError),
       as_str = strict_str, as_int = strict_int, as_dict = strict_dict \<rparr>"

text \<open>
  The text \<open>{"requirements": [], "document_summary": "N```N```", "total_requirements": 0}\<close>
  where \<open>N\<close> is the code point U+0085 (NEXT LINE), which JSON allows unescaped inside
  a string and \<open>str.splitlines\<close> takes for a line boundary.
\<close>

definition nel_text :: pystr where
  "nel_text =
     [123, 34, 114, 101, 113, 117, 105, 114, 101, 109, 101, 110, 116, 115, 34, 58, 32, 91,
      93, 44, 32, 34, 100, 111, 99, 117, 109, 101, 110, 116, 95, 115, 117, 109, 109, 97, 114,
      121, 34, 58, 32, 34, 133, 96, 96, 96, 133, 96, 96, 96, 34, 44, 32, 34, 116, 111, 116,
      97, 108, 95, 114, 101, 113, 117, 105, 114, 101, 109, 101, 110, 116, 115, 34, 58, 32,
      48, 125]"

definition req_parsed :: requirement where
  "req_parsed = \<lparr> req_id = ''R1'', title = ''Login'', description = None, priority = None,
                  assignee = None, estimated_hours = None, acceptance_criteria = [] \<rparr>"

section \<open>Auxiliary facts\<close>

lemma attempt_loop_429_retry:
  assumes "status_code (tracker e (length (posts st)) payload) = 429"
      and "read_retry_after e (tracker e (length (posts st)) payload) = Inr d"
      and "float_add e d (jitter e (length (sleeps st))) = Some w"
      and "0 \<le> w" and "w \<le> max_sleep e"
      and "attempt < max_retries"
  shows "attempt_loop e req payload attempt st =
         attempt_loop e req payload (Suc attempt)
           (st\<lparr>posts := posts st @ [payload], sleeps := sleeps st @ [w]\<rparr>)"
  using assms
  by (subst attempt_loop.simps) (simp add: post_def sleep_jittered_def max_retries_def)

lemma attempt_loop_429_unread:
  assumes "status_code (tracker e (length (posts st)) payload) = 429"
      and "read_retry_after e (tracker e (length (posts st)) payload) = Inl x"
      and "attempt \<le> max_retries"
  shows "attempt_loop e req payload attempt st = (Inl x, st\<lparr>posts := posts st @ [payload]\<rparr>)"
  using assms
  by (subst attempt_loop.simps) (simp add: post_def max_retries_def)

lemma attempt_loop_429_no_sleep:
  assumes "status_code (tracker e (length (posts st)) payload) = 429"
      and "read_retry_after e (tracker e (length (posts st)) payload) = Inr d"
      and "sleep_jittered e d (st\<lparr>posts := posts st @ [payload]\<rparr>) = Inl x"
      and "attempt < max_retries"
  shows "attempt_loop e req payload attempt st = (Inl x, st\<lparr>posts := posts st @ [payload]\<rparr>)"
  using assms
  by (subst attempt_loop.simps) (simp add: post_def max_retries_def)

lemma attempt_loop_429_exhausted:
  assumes "status_code (tracker e (length (posts st)) payload) = 429"
      and "read_retry_after e (tracker e (length (posts st)) payload) = Inr d"
      and "attempt = max_retries"
  shows "attempt_loop e req payload attempt st =
         (Inl (HTTPError 429), st\<lparr>posts := posts st @ [payload]\<rparr>)"
  using assms
  by (subst attempt_loop.simps) (simp add: post_def raise_for_status_def max_retries_def)

lemma attempt_loop_201:
  assumes "status_code (tracker e (length (posts st)) payload) = 201"
      and "attempt \<le> max_retries"
  shows "attempt_loop e req payload attempt st =
         (case make_task (cfg e) req (tracker e (length (posts st)) payload) of
            Inl x \<Rightarrow> (Inl x, st\<lparr>posts := posts st @ [payload]\<rparr>)
          | Inr t \<Rightarrow> (Inr (Some t), st\<lparr>posts := posts st @ [payload]\<rparr>))"
  using assms
  by (subst attempt_loop.simps) (simp add: post_def max_retries_def)

lemma attempt_loop_other:
  assumes "status_code (tracker e (length (posts st)) payload) \<noteq> 201"
      and "status_code (tracker e (length (posts st)) payload) \<noteq> 429"
      and "attempt \<le> max_retries"
  shows "attempt_loop e req payload attempt st =
         other_error e req payload (tracker e (length (posts st)) payload)
           (st\<lparr>posts := posts st @ [payload]\<rparr>)"
  using assms
  by (subst attempt_loop.simps) (simp add: post_def max_retries_def)

lemma sleep_jittered_effects:
  "sleep_jittered e n st = Inr st' \<Longrightarrow>
   posts st' = posts st \<and> (\<exists>w. sleeps st' = sleeps st @ [w])"
  by (auto simp: sleep_jittered_def split: option.splits if_splits)

lemma retry_without_priority_effects:
  "retry_without_priority e req payload st = (res, st') \<Longrightarrow>
   posts st' = posts st @ [payload\<lparr>f_priority := None\<rparr>] \<and> sleeps st' = sleeps st"
  by (auto simp: retry_without_priority_def post_def Let_def split: if_splits sum.splits)

lemma other_error_effects:
  "other_error e req payload resp st = (res, st') \<Longrightarrow>
   (posts st' = posts st \<or> posts st' = posts st @ [payload\<lparr>f_priority := None\<rparr>])
   \<and> sleeps st' = sleeps st"
  by (auto simp: other_error_def split: sum.splits bool.splits dest: retry_without_priority_effects)

lemma attempt_loop_effects:
  "attempt_loop e req payload attempt st = (res, st') \<Longrightarrow>
   length (posts st') \<le> length (posts st) + (max_retries + 1 - attempt) + 1 \<and>
   length (sleeps st') \<le> length (sleeps st) + (max_retries - attempt) \<and>
   (\<exists>ps. posts st' = posts st @ ps)"
proof (induction e req payload attempt st arbitrary: res st' rule: attempt_loop.induct)
  case (1 e req payload attempt st)
  let ?r = "tracker e (length (posts st)) payload"
  let ?st1 = "st\<lparr>posts := posts st @ [payload]\<rparr>"
  show ?case
  proof (cases "max_retries + 1 \<le> attempt")
    case True
    with "1.prems" show ?thesis by (subst (asm) attempt_loop.simps) simp
  next
    case lt: False
    then have le: "attempt \<le> max_retries" by simp
    consider (ok) "status_code ?r = 201"
      | (limited) "status_code ?r = 429"
      | (other) "status_code ?r \<noteq> 201" "status_code ?r \<noteq> 429"
      by blast
    then show ?thesis
    proof cases
      case ok
      from "1.prems" have "st' = ?st1"
        unfolding attempt_loop_201 [OF ok le] by (auto split: sum.splits)
      then show ?thesis by simp
    next
      case other
      from "1.prems" have "other_error e req payload ?r ?st1 = (res, st')"
        unfolding attempt_loop_other [OF other le] .
      from other_error_effects [OF this] le show ?thesis by auto
    next
      case limited
      show ?thesis
      proof (cases "read_retry_after e ?r")
        case (Inl x)
        from "1.prems" limited Inl lt have "st' = ?st1"
          by (subst (asm) attempt_loop.simps) (simp add: post_def)
        then show ?thesis by simp
      next
        case (Inr n)
        show ?thesis
        proof (cases "attempt < max_retries")
          case False
          with le have "attempt = max_retries" by simp
          from "1.prems" have "st' = ?st1"
            unfolding attempt_loop_429_exhausted [OF limited Inr \<open>attempt = max_retries\<close>]
            by simp
          then show ?thesis by simp
        next
          case True
          show ?thesis
          proof (cases "sleep_jittered e n ?st1")
            case (Inl x)
            from "1.prems" limited Inr True Inl lt have "st' = ?st1"
              by (subst (asm) attempt_loop.simps) (simp add: post_def)
            then show ?thesis by simp
          next
            case st2: (Inr st2)
            from "1.prems" limited Inr True st2 lt
            have rec: "attempt_loop e req payload (Suc attempt) st2 = (res, st')"
              by (subst (asm) attempt_loop.simps) (simp add: post_def)
            have ih: "length (posts st') \<le> length (posts st2) + (max_retries + 1 - Suc attempt) + 1 \<and>
                      length (sleeps st') \<le> length (sleeps st2) + (max_retries - Suc attempt) \<and>
                      (\<exists>ps. posts st' = posts st2 @ ps)"
            proof -
              have p: "(?r, ?st1) = post e payload st" by (simp add: post_def)
              have ne: "status_code ?r \<noteq> 201" using limited by simp
              show ?thesis
                by (rule "1.IH"(1) [OF lt refl p ne limited Inr True st2 rec])
            qed
            from sleep_jittered_effects [OF st2]
            obtain w where eff: "posts st2 = posts st @ [payload]" "sleeps st2 = sleeps st @ [w]"
              by auto
            from ih eff True show ?thesis by auto
          qed
        qed
      qed
    qed
  qed
qed

lemma priority_in_keys:
  "priority_in (JObj es) = Inr (''priority'' \<in> fst ` set es)"
  by (simp add: priority_in_def)

lemma retry_without_priority_result:
  assumes "p2 = payload\<lparr>f_priority := None\<rparr>"
      and "r2 = tracker e (length (posts st1)) p2"
      and "st2 = st1\<lparr>posts := posts st1 @ [p2]\<rparr>"
  shows "(status_code r2 = 201 \<and> issue_key r2 = Inr k \<longrightarrow>
            retry_without_priority e req payload st1 =
            (Inr (Some \<lparr> requirement_id = req_id req, jira_key = k,
                          jira_url = (base_url (cfg e), k) \<rparr>), st2))
       \<and> (status_code r2 \<noteq> 201 \<longrightarrow> (\<exists>x. retry_without_priority e req payload st1 = (Inl x, st2)))"
  using assms
  by (auto simp: retry_without_priority_def post_def make_task_def split: sum.splits)

lemma other_error_rejected:
  assumes "body r = Some (JObj kvs)" "map_of kvs ''errors'' = Some (JObj es)"
          "''priority'' \<in> fst ` set es"
  shows "other_error e req payload r st1 = retry_without_priority e req payload st1"
  using assms
  by (simp add: other_error_def error_body_def json_get_def priority_in_keys split: option.splits)



lemma base_url_example: "base_url example_config = ''https://t.example''"
  by (simp add: base_url_def rstrip_slash_def example_config_def)

lemma tasks_loop_effects:
  "tasks_loop e reqs created st = (res, st') \<Longrightarrow> \<exists>ps. posts st' = posts st @ ps"
proof (induction reqs arbitrary: created st)
  case Nil
  then show ?case by simp
next
  case (Cons req rest)
  obtain r1 st1 where a: "attempt_loop e req (build_fields (cfg e) req) 0 st = (r1, st1)"
    by (cases "attempt_loop e req (build_fields (cfg e) req) 0 st")
  from attempt_loop_effects [OF a] obtain ps1 where ps1: "posts st1 = posts st @ ps1" by blast
  show ?case
  proof (cases r1)
    case (Inl x)
    with Cons.prems a have "st' = st1" by simp
    with ps1 show ?thesis by blast
  next
    case (Inr t)
    with Cons.prems a obtain created' where "tasks_loop e rest created' st1 = (res, st')"
      by (cases t) auto
    from Cons.IH [OF this] ps1 show ?thesis by auto
  qed
qed

lemma splitlines_no_break:
  "s \<noteq> [] \<Longrightarrow> \<forall>c \<in> set s. \<not> is_linebreak c \<Longrightarrow> splitlines s = [s]"
proof -
  assume ne: "s \<noteq> []" and nb: "\<forall>c \<in> set s. \<not> is_linebreak c"
  have d: "dropWhile (\<lambda>c. \<not> is_linebreak c) s = []" using nb by simp
  have t: "takeWhile (\<lambda>c. \<not> is_linebreak c) s = s" using nb by simp
  have e: "splitlines [] = []" by (simp add: splitlines.simps)
  show ?thesis by (subst splitlines.simps) (simp add: ne d t e)
qed

lemma strip_example_text: "strip_code_fences example_text = example_text"
proof -
  have nb: "\<forall>c \<in> set example_text. \<not> is_linebreak c"
    by (simp add: example_text_def is_linebreak_def)
  have ne: "example_text \<noteq> []" by (simp add: example_text_def)
  have st: "py_strip example_text = example_text"
    by (simp add: py_strip_def lstrip_def rstrip_def example_text_def is_space_def)
  have sw: "\<not> startswith example_text fence"
    by (simp add: startswith_def fence_def example_text_def)
  show ?thesis
    unfolding strip_code_fences_def st splitlines_no_break [OF ne nb]
    using sw by (simp add: Let_def)
qed

lemma analyze_example:
  "analyze_with_openai example_parser (Some example_text) =
     Inr \<lparr> requirements = [req_parsed], document_summary = None, total_requirements = 1 \<rparr>"
proof -
  have ne: "example_text \<noteq> []" by (simp add: example_text_def)
  have v: "validate_response example_parser example_data =
     Inr \<lparr> requirements = [req_parsed], document_summary = None, total_requirements = 1 \<rparr>"
    by (simp add: validate_response_def example_data_def example_parser_def
          validate_requirement_def required_field_def optional_field_def str_list_field_def
          strict_str_def strict_int_def strict_dict_def req_parsed_def)
  have l: "json_loads example_parser example_text = Inr example_data"
    by (simp add: example_parser_def)
  show ?thesis
    unfolding analyze_with_openai_def using ne v l by (simp add: strip_example_text)
qed

lemma build_fields_R2:
  "build_fields example_config req_R2 =
     \<lparr> f_project = Some ''PRD'', f_summary = ''Export'',
       f_description = Doc 1 [Paragraph [AdfText None]],
       f_issuetype = ''Task'', f_labels = [''automated'', ''prd-generated''],
       f_priority = Some ''Urgent'', f_assignee = Some ''acc-1'', f_timetracking = None \<rparr>"
  by (simp add: build_fields_def example_config_def req_R2_def format_adf_description_def
        truthy_str_def truthy_int_def PRIORITY_MAPPING_def)

lemma second_fails_run:
  "create_jira_tasks (example_env tracker_second_fails) [req_R1, req_R2] no_effects =
     (Inl (JiraApiErrorFields (JArr []) (JObj [(''summary'', JStr ''Summary is too long'')])),
      \<lparr> posts = [build_fields example_config req_R1, build_fields example_config req_R2],
        sleeps = [] \<rparr>)"
proof -
  let ?e = "example_env tracker_second_fails"
  let ?p1 = "build_fields example_config req_R1"
  let ?p2 = "build_fields example_config req_R2"
  let ?s1 = "\<lparr> posts = [?p1], sleeps = [] \<rparr>"
  have cfg: "cfg ?e = example_config" by (simp add: example_env_def)
  have a1: "attempt_loop ?e req_R1 ?p1 0 no_effects =
     (Inr (Some \<lparr> requirement_id = ''R1'', jira_key = JStr ''PRD-1'',
              jira_url = (''https://t.example'', JStr ''PRD-1'') \<rparr>), ?s1)"
    by (subst attempt_loop_201)
       (simp_all add: example_env_def tracker_second_fails_def created_response_def
          no_effects_def max_retries_def make_task_def issue_key_def
          base_url_example req_R1_def)
  have a2: "attempt_loop ?e req_R2 ?p2 0 ?s1 =
     (Inl (JiraApiErrorFields (JArr []) (JObj [(''summary'', JStr ''Summary is too long'')])),
      \<lparr> posts = [?p1, ?p2], sleeps = [] \<rparr>)"
    by (subst attempt_loop_other)
       (simp_all add: example_env_def tracker_second_fails_def summary_rejected_response_def
          max_retries_def other_error_def error_body_def json_get_def priority_in_def)
  show ?thesis
    unfolding create_jira_tasks_def tasks_loop.simps cfg a1 by (simp add: a2)
qed

lemma linebreak_is_space: "is_linebreak c \<Longrightarrow> is_space c"
  by (auto simp: is_linebreak_def is_space_def)

lemma splitlines_Nil: "splitlines [] = []"
  by (simp add: splitlines.simps)

lemma splitlines_line_break:
  assumes "\<forall>c \<in> set a. \<not> is_linebreak c" and "is_linebreak b"
  shows "splitlines (a @ b # t) = a # splitlines (after_break (b # t))"
proof -
  have t: "takeWhile not_linebreak (a @ b # t) = a" using assms by simp
  have d: "dropWhile not_linebreak (a @ b # t) = b # t" using assms by simp
  show ?thesis by (subst splitlines.simps) (simp only: t d, simp)
qed

lemma splitlines_line_nl:
  assumes "\<forall>c \<in> set a. \<not> is_linebreak c"
  shows "splitlines (a @ 10 # t) = a # splitlines t"
proof -
  have "is_linebreak 10" by (simp add: is_linebreak_def)
  from splitlines_line_break [OF assms this, of t] show ?thesis by simp
qed

text \<open>A text that goes on after its first line and does not end in a boundary.\<close>

lemma first_line_split:
  assumes d: "dropWhile not_linebreak s = c # r" and l: "\<not> is_linebreak (last s)"
  shows "is_linebreak c"
    and "s = takeWhile not_linebreak s @ c # r"
    and "\<forall>x \<in> set (takeWhile not_linebreak s). \<not> is_linebreak x"
    and "after_break (c # r) \<noteq> []"
    and "last (after_break (c # r)) = last s"
    and "after_break (c # (r @ X)) = after_break (c # r) @ X"
    and "splitlines s = takeWhile not_linebreak s # splitlines (after_break (c # r))"
proof -
  show c: "is_linebreak c" using d hd_dropWhile [of not_linebreak s] by force
  show s: "s = takeWhile not_linebreak s @ c # r" using d takeWhile_dropWhile_id [of not_linebreak s] by simp
  show line: "\<forall>x \<in> set (takeWhile not_linebreak s). \<not> is_linebreak x"
    using set_takeWhileD by fastforce
  have r: "r \<noteq> []"
  proof
    assume "r = []"
    with s have "last s = c" by (metis last_snoc)
    with c l show False by simp
  qed
  show "after_break (c # (r @ X)) = after_break (c # r) @ X" using r by (cases r) auto
  show "after_break (c # r) \<noteq> []" "last (after_break (c # r)) = last s"
  proof -
    have "after_break (c # r) \<noteq> [] \<and> last (after_break (c # r)) = last s"
    proof (cases "c = 13 \<and> take 1 r = [10]")
      case False
      then have "after_break (c # r) = r" by auto
      with r s show ?thesis by (metis last_appendR last_ConsR list.distinct(1))
    next
      case True
      then obtain r' where r': "r = 10 # r'" by (cases r) auto
      have ne: "r' \<noteq> []"
      proof
        assume "r' = []"
        with r' s have "last s = 10"
          by (metis last_appendR last_ConsR last_ConsL list.distinct(1))
        with l show False by (simp add: is_linebreak_def)
      qed
      moreover have "after_break (c # r) = r'" using True r' by simp
      moreover have "last s = last r'" using s r' ne
        by (metis last_appendR last_ConsR list.distinct(1))
      ultimately show ?thesis by simp
    qed
    then show "after_break (c # r) \<noteq> []" "last (after_break (c # r)) = last s" by blast+
  qed
  have "splitlines (takeWhile not_linebreak s @ c # r) = takeWhile not_linebreak s # splitlines (after_break (c # r))"
    by (rule splitlines_line_break [OF line c])
  then show "splitlines s = takeWhile not_linebreak s # splitlines (after_break (c # r))"
    by (simp only: s [symmetric])
qed

lemma splitlines_append_line:
  assumes "t \<noteq> []" and "\<not> is_linebreak (last t)"
      and "b \<noteq> []" and "\<forall>c \<in> set b. \<not> is_linebreak c"
  shows "splitlines (t @ 10 # b) = splitlines t @ [b]"
  using assms(1,2)
proof (induction t rule: splitlines.induct)
  case (1 s)
  let ?X = "10 # b"
  show ?case
  proof (cases "dropWhile not_linebreak s")
    case Nil
    then have all: "\<forall>c \<in> set s. \<not> is_linebreak c" by simp
    from splitlines_line_nl [OF all, of b] splitlines_no_break [OF "1.prems"(1) all]
         splitlines_no_break [OF assms(3,4)]
    show ?thesis by simp
  next
    case (Cons c r)
    note fl = first_line_split [OF Cons "1.prems"(2)]
    let ?t2 = "after_break (c # r)"
    have dw: "after_break (dropWhile not_linebreak s) = ?t2" using Cons by (simp only:)
    have ih: "splitlines (?t2 @ ?X) = splitlines ?t2 @ [b]"
    proof -
      have a: "after_break (dropWhile not_linebreak s) \<noteq> []" unfolding dw by (rule fl(4))
      have "\<not> is_linebreak (last ?t2)" using fl(5) "1.prems"(2) by metis
      then have b: "\<not> is_linebreak (last (after_break (dropWhile not_linebreak s)))" unfolding dw .
      from "1.IH" [OF "1.prems"(1) a b] show ?thesis unfolding dw .
    qed
    have e: "takeWhile not_linebreak s @ c # (r @ ?X) = s @ ?X"
      using fl(2) by (metis append_Cons append_assoc)
    have "splitlines (takeWhile not_linebreak s @ c # (r @ ?X)) =
          takeWhile not_linebreak s # splitlines (after_break (c # (r @ ?X)))"
      by (rule splitlines_line_break [OF fl(3) fl(1)])
    then have lhs: "splitlines (s @ ?X) = takeWhile not_linebreak s # splitlines (?t2 @ ?X)"
      by (simp only: e fl(6))
    show ?thesis by (simp only: lhs fl(7) ih append_Cons)
  qed
qed

lemma splitlines_lines:
  "l \<in> set (splitlines s) \<Longrightarrow> \<forall>c \<in> set l. \<not> is_linebreak c"
proof (induction s rule: splitlines.induct)
  case (1 s)
  show ?case
  proof (cases "s = []")
    case True
    with "1.prems" show ?thesis by (simp add: splitlines_Nil)
  next
    case False
    have line: "\<forall>x \<in> set (takeWhile not_linebreak s). \<not> is_linebreak x"
      using set_takeWhileD by fastforce
    from "1.prems" False
    have "l = takeWhile not_linebreak s \<or> l \<in> set (splitlines (after_break (dropWhile not_linebreak s)))"
      by (subst (asm) splitlines.simps) simp
    then show ?thesis using line "1.IH" [OF False] by blast
  qed
qed

lemma splitlines_last:
  assumes "s \<noteq> []" and "\<not> is_linebreak (last s)"
  shows "splitlines s \<noteq> [] \<and> last (splitlines s) \<noteq> [] \<and> last (last (splitlines s)) = last s"
  using assms
proof (induction s rule: splitlines.induct)
  case (1 s)
  show ?case
  proof (cases "dropWhile not_linebreak s")
    case Nil
    then have all: "\<forall>c \<in> set s. \<not> is_linebreak c" by simp
    from splitlines_no_break [OF "1.prems"(1) all] "1.prems"(1) show ?thesis by simp
  next
    case (Cons c r)
    note fl = first_line_split [OF Cons "1.prems"(2)]
    let ?t2 = "after_break (c # r)"
    have dw: "after_break (dropWhile not_linebreak s) = ?t2" using Cons by (simp only:)
    have a: "after_break (dropWhile not_linebreak s) \<noteq> []" unfolding dw by (rule fl(4))
    have "\<not> is_linebreak (last ?t2)" using fl(5) "1.prems"(2) by metis
    then have b: "\<not> is_linebreak (last (after_break (dropWhile not_linebreak s)))" unfolding dw .
    from "1.IH" [OF "1.prems"(1) a b]
    have ih: "splitlines ?t2 \<noteq> [] \<and> last (splitlines ?t2) \<noteq> [] \<and>
              last (last (splitlines ?t2)) = last ?t2"
      unfolding dw .
    show ?thesis unfolding fl(7) using ih fl(5) by simp
  qed
qed

lemma splitlines_hd:
  assumes "s \<noteq> []" and "\<not> is_linebreak (hd s)"
  shows "splitlines s \<noteq> [] \<and> hd (splitlines s) \<noteq> [] \<and> hd (hd (splitlines s)) = hd s"
proof -
  obtain c r where s: "s = c # r" using assms(1) by (cases s) auto
  with assms(2) have "takeWhile not_linebreak s = c # takeWhile not_linebreak r" by simp
  then show ?thesis using s by (subst (1 2 3) splitlines.simps) simp
qed

lemma join_nl_Cons: "ls \<noteq> [] \<Longrightarrow> join_nl (l # ls) = l @ 10 # join_nl ls"
  by (cases ls) simp_all

lemma splitlines_join_nl:
  assumes "ls \<noteq> []" and "\<forall>l \<in> set ls. \<forall>c \<in> set l. \<not> is_linebreak c" and "last ls \<noteq> []"
  shows "splitlines (join_nl ls) = ls"
  using assms
proof (induction ls)
  case Nil
  then show ?case by simp
next
  case (Cons l ls)
  show ?case
  proof (cases "ls = []")
    case True
    with Cons.prems show ?thesis by (simp add: splitlines_no_break)
  next
    case False
    have l: "\<forall>c \<in> set l. \<not> is_linebreak c" using Cons.prems(2) by simp
    have ih: "splitlines (join_nl ls) = ls" using Cons.IH False Cons.prems by simp
    show ?thesis
      unfolding join_nl_Cons [OF False] splitlines_line_nl [OF l] ih ..
  qed
qed

lemma hd_join_nl: "ls \<noteq> [] \<Longrightarrow> hd ls \<noteq> [] \<Longrightarrow> hd (join_nl ls) = hd (hd ls)"
  by (cases ls rule: join_nl.cases) auto

lemma join_nl_nonempty_last: "ls \<noteq> [] \<Longrightarrow> last ls \<noteq> [] \<Longrightarrow> join_nl ls \<noteq> []"
  by (induction ls rule: join_nl.induct) auto

lemma last_join_nl: "ls \<noteq> [] \<Longrightarrow> last ls \<noteq> [] \<Longrightarrow> last (join_nl ls) = last (last ls)"
  by (induction ls rule: join_nl.induct) (auto simp: join_nl_nonempty_last)

lemma join_nl_nonempty: "ls \<noteq> [] \<Longrightarrow> hd ls \<noteq> [] \<Longrightarrow> join_nl ls \<noteq> []"
  by (cases ls rule: join_nl.cases) auto

lemma py_strip_id:
  assumes "s \<noteq> []" and "\<not> is_space (hd s)" and "\<not> is_space (last s)"
  shows "py_strip s = s"
proof -
  have l: "lstrip s = s" using assms(1,2) by (cases s) (simp_all add: lstrip_def)
  have "dropWhile is_space (rev s) = rev s"
    using assms(1,3) by (cases "rev s") (simp_all add: last_rev [symmetric] hd_rev)
  then have "rstrip s = s" by (simp add: rstrip_def)
  with l show ?thesis by (simp add: py_strip_def)
qed

lemma rstrip_append:
  assumes "y \<noteq> []" and "\<not> is_space (last y)"
  shows "rstrip (y @ i) = y @ rstrip i"
proof -
  have "dropWhile is_space (rev y) = rev y"
    using assms by (cases "rev y") (simp_all add: last_rev [symmetric] hd_rev)
  then have "dropWhile is_space (rev i @ rev y) = dropWhile is_space (rev i) @ rev y"
    by (simp add: dropWhile_append)
  then show ?thesis by (simp add: rstrip_def)
qed

lemma set_rstrip: "set (rstrip s) \<subseteq> set s"
  using set_dropWhileD [of _ is_space "rev s"] by (auto simp: rstrip_def)

lemma fence_not_space: "c \<in> set fence \<Longrightarrow> \<not> is_space c"
  by (auto simp: fence_def is_space_def)

lemma fence_not_linebreak: "c \<in> set fence \<Longrightarrow> \<not> is_linebreak c"
  by (auto simp: fence_def is_linebreak_def)

lemma startswith_fence: "startswith (fence @ i) fence"
  by (simp add: startswith_def)

text \<open>The closing fence line after \<open>strip\<close>: still a fence line.\<close>

lemma rstrip_fence_line:
  assumes "\<forall>c \<in> set i. \<not> is_linebreak c"
  shows "rstrip (x @ fence @ i) = x @ fence @ rstrip i"
    and "\<forall>c \<in> set (fence @ rstrip i). \<not> is_linebreak c"
    and "fence @ rstrip i \<noteq> []"
proof -
  have "x @ fence \<noteq> []" "\<not> is_space (last (x @ fence))"
    by (simp_all add: fence_def is_space_def)
  from rstrip_append [OF this, of i]
  show "rstrip (x @ fence @ i) = x @ fence @ rstrip i" by simp
  show "\<forall>c \<in> set (fence @ rstrip i). \<not> is_linebreak c"
    using assms set_rstrip [of i] fence_not_linebreak by auto
  show "fence @ rstrip i \<noteq> []" by (simp add: fence_def)
qed

lemma not_space_not_linebreak: "\<not> is_space c \<Longrightarrow> \<not> is_linebreak c"
  using linebreak_is_space by blast

lemma strip_plain:
  assumes "t \<noteq> []" and "\<not> is_space (hd t)" and "\<not> is_space (last t)"
      and "\<not> startswith (hd (splitlines t)) fence"
      and "\<not> startswith (last (splitlines t)) fence"
  shows "strip_code_fences t = join_nl (splitlines t)"
proof -
  have st: "py_strip t = t" by (rule py_strip_id [OF assms(1-3)])
  show ?thesis unfolding strip_code_fences_def st using assms(4,5) by (simp add: Let_def)
qed

lemma strip_leading:
  assumes "t \<noteq> []" and "\<not> is_space (last t)"
      and "\<not> startswith (last (splitlines t)) fence"
      and i1: "\<forall>c \<in> set i1. \<not> is_linebreak c"
  shows "strip_code_fences (fence @ i1 @ 10 # t) = join_nl (splitlines t)"
proof -
  let ?w = "fence @ i1 @ 10 # t"
  have "?w \<noteq> []" "\<not> is_space (hd ?w)" "\<not> is_space (last ?w)"
    using assms(1,2) by (simp_all add: fence_def is_space_def)
  then have st: "py_strip ?w = ?w" by (rule py_strip_id)
  have f: "\<forall>c \<in> set (fence @ i1). \<not> is_linebreak c"
    using i1 fence_not_linebreak by auto
  have sl: "splitlines ?w = (fence @ i1) # splitlines t"
    using splitlines_line_nl [OF f, of t] by simp
  have ne: "splitlines t \<noteq> []"
    using splitlines_last [OF assms(1) not_space_not_linebreak [OF assms(2)]] by simp
  show ?thesis
    unfolding strip_code_fences_def st sl
    using ne assms(3) startswith_fence [of i1] by (simp add: Let_def)
qed

lemma strip_trailing:
  assumes "t \<noteq> []" and "\<not> is_space (hd t)" and "\<not> is_space (last t)"
      and "\<not> startswith (hd (splitlines t)) fence"
      and i2: "\<forall>c \<in> set i2. \<not> is_linebreak c"
  shows "strip_code_fences (t @ 10 # fence @ i2) = join_nl (splitlines t)"
proof -
  let ?w = "t @ 10 # fence @ i2"
  let ?f = "fence @ rstrip i2"
  note rf = rstrip_fence_line [OF i2]
  have l: "lstrip ?w = ?w" using assms(1,2) by (cases t) (simp_all add: lstrip_def)
  have "rstrip ((t @ [10]) @ fence @ i2) = (t @ [10]) @ ?f" by (rule rf(1))
  then have st: "py_strip ?w = t @ 10 # ?f" by (simp add: py_strip_def l)
  have sl: "splitlines (t @ 10 # ?f) = splitlines t @ [?f]"
    by (rule splitlines_append_line [OF assms(1) not_space_not_linebreak [OF assms(3)] rf(3) rf(2)])
  have ne: "splitlines t \<noteq> []"
    using splitlines_last [OF assms(1) not_space_not_linebreak [OF assms(3)]] by simp
  show ?thesis
    unfolding strip_code_fences_def st sl
    using ne assms(4) startswith_fence [of "rstrip i2"] by (simp add: Let_def)
qed

lemma strip_both:
  assumes "t \<noteq> []" and "\<not> is_space (last t)"
      and i1: "\<forall>c \<in> set i1. \<not> is_linebreak c"
      and i2: "\<forall>c \<in> set i2. \<not> is_linebreak c"
  shows "strip_code_fences (fence @ i1 @ 10 # t @ 10 # fence @ i2) = join_nl (splitlines t)"
proof -
  let ?w = "fence @ i1 @ 10 # t @ 10 # fence @ i2"
  let ?f = "fence @ rstrip i2"
  note rf = rstrip_fence_line [OF i2]
  have l: "lstrip ?w = ?w" by (simp add: lstrip_def fence_def is_space_def)
  have "rstrip ((fence @ i1 @ 10 # t @ [10]) @ fence @ i2) = (fence @ i1 @ 10 # t @ [10]) @ ?f"
    by (rule rf(1))
  then have st: "py_strip ?w = (fence @ i1) @ 10 # (t @ 10 # ?f)" by (simp add: py_strip_def l)
  have f: "\<forall>c \<in> set (fence @ i1). \<not> is_linebreak c"
    using i1 fence_not_linebreak by auto
  have sl: "splitlines ((fence @ i1) @ 10 # (t @ 10 # ?f)) = (fence @ i1) # splitlines t @ [?f]"
    unfolding splitlines_line_nl [OF f]
      splitlines_append_line [OF assms(1) not_space_not_linebreak [OF assms(2)] rf(3) rf(2)] ..
  show ?thesis
    unfolding strip_code_fences_def st sl
    using startswith_fence [of i1] startswith_fence [of "rstrip i2"] by (simp add: Let_def)
qed

lemma strip_joined:
  assumes "t \<noteq> []" and "\<not> is_space (hd t)" and "\<not> is_space (last t)"
      and "\<not> startswith (hd (splitlines t)) fence"
      and "\<not> startswith (last (splitlines t)) fence"
  shows "strip_code_fences (join_nl (splitlines t)) = join_nl (splitlines t)"
proof -
  let ?ls = "splitlines t"
  let ?u = "join_nl ?ls"
  note la = splitlines_last [OF assms(1) not_space_not_linebreak [OF assms(3)]]
  note hd = splitlines_hd [OF assms(1) not_space_not_linebreak [OF assms(2)]]
  have ne: "?ls \<noteq> []" "hd ?ls \<noteq> []" "last ?ls \<noteq> []" using la hd by simp_all
  have u: "?u \<noteq> []" by (rule join_nl_nonempty [OF ne(1,2)])
  have hu: "\<not> is_space (hd ?u)" using hd_join_nl [OF ne(1,2)] hd assms(2) by simp
  have lu: "\<not> is_space (last ?u)" using last_join_nl [OF ne(1,3)] la assms(3) by simp
  have lines: "\<forall>l \<in> set ?ls. \<forall>c \<in> set l. \<not> is_linebreak c"
    using splitlines_lines by blast
  have sp: "splitlines ?u = ?ls" by (rule splitlines_join_nl [OF ne(1) lines ne(3)])
  have a: "\<not> startswith (hd (splitlines ?u)) fence" unfolding sp by (rule assms(4))
  have b: "\<not> startswith (last (splitlines ?u)) fence" unfolding sp by (rule assms(5))
  show ?thesis using strip_plain [OF u hu lu a b] unfolding sp .
qed

lemma join_splitlines_nl:
  assumes "t \<noteq> []" and "\<not> is_linebreak (last t)"
      and "\<forall>c \<in> set t. is_linebreak c \<longrightarrow> c = 10"
  shows "join_nl (splitlines t) = t"
  using assms
proof (induction t rule: splitlines.induct)
  case (1 s)
  show ?case
  proof (cases "dropWhile not_linebreak s")
    case Nil
    then have all: "\<forall>c \<in> set s. \<not> is_linebreak c" by simp
    from splitlines_no_break [OF "1.prems"(1) all] show ?thesis by simp
  next
    case (Cons c r)
    note fl = first_line_split [OF Cons "1.prems"(2)]
    have "c \<in> set s" using fl(2) by (metis in_set_conv_decomp)
    with fl(1) "1.prems"(3) have c: "c = 10" by blast
    then have ab: "after_break (c # r) = r" by simp
    have dw: "after_break (dropWhile not_linebreak s) = r" using Cons ab by (simp only:)
    have r: "r \<noteq> []" "\<not> is_linebreak (last r)" using fl(4,5) "1.prems"(2) ab by simp_all
    have sub: "\<forall>c \<in> set r. is_linebreak c \<longrightarrow> c = 10"
    proof -
      have "set r \<subseteq> set s" using fl(2) by (metis set_subset_Cons set_append le_supI2)
      with "1.prems"(3) show ?thesis by blast
    qed
    have ih: "join_nl (splitlines r) = r"
      using "1.IH" [OF "1.prems"(1)] r sub unfolding dw by blast
    have ne: "splitlines r \<noteq> []" using splitlines_last [OF r] by simp
    have "join_nl (splitlines s) = takeWhile not_linebreak s @ 10 # r"
      unfolding fl(7) ab join_nl_Cons [OF ne] ih ..
    with fl(2) c show ?thesis by simp
  qed
qed

lemma validate_all_fails:
  "j \<in> set js \<Longrightarrow> validate_requirement p j = Inl x \<Longrightarrow> validate_all p js = Inl ValidationError"
  by (induction js) (auto split: sum.splits)

lemma strip_nel_text:
  "strip_code_fences nel_text =
     [123, 34, 114, 101, 113, 117, 105, 114, 101, 109, 101, 110, 116, 115, 34, 58, 32, 91,
      93, 44, 32, 34, 100, 111, 99, 117, 109, 101, 110, 116, 95, 115, 117, 109, 109, 97, 114,
      121, 34, 58, 32, 34, 10, 96, 96, 96]"
  by (simp add: strip_code_fences_def py_strip_def lstrip_def rstrip_def nel_text_def
        is_space_def is_linebreak_def splitlines.simps startswith_def fence_def Let_def)

lemma strip_strip_nel_text:
  "strip_code_fences
     [123, 34, 114, 101, 113, 117, 105, 114, 101, 109, 101, 110, 116, 115, 34, 58, 32, 91,
      93, 44, 32, 34, 100, 111, 99, 117, 109, 101, 110, 116, 95, 115, 117, 109, 109, 97, 114,
      121, 34, 58, 32, 34, 10, 96, 96, 96] =
     [123, 34, 114, 101, 113, 117, 105, 114, 101, 109, 101, 110, 116, 115, 34, 58, 32, 91,
      93, 44, 32, 34, 100, 111, 99, 117, 109, 101, 110, 116, 95, 115, 117, 109, 109, 97, 114,
      121, 34, 58, 32, 34]"
  by (simp add: strip_code_fences_def py_strip_def lstrip_def rstrip_def
        is_space_def is_linebreak_def splitlines.simps startswith_def fence_def Let_def)

lemma strip_fenced_nel_text:
  "strip_code_fences (fence @ 10 # nel_text @ 10 # fence) =
     [123, 34, 114, 101, 113, 117, 105, 114, 101, 109, 101, 110, 116, 115, 34, 58, 32, 91,
      93, 44, 32, 34, 100, 111, 99, 117, 109, 101, 110, 116, 95, 115, 117, 109, 109, 97, 114,
      121, 34, 58, 32, 34, 10, 96, 96, 96, 10, 96, 96, 96, 34, 44, 32, 34, 116, 111, 116,
      97, 108, 95, 114, 101, 113, 117, 105, 114, 101, 109, 101, 110, 116, 115, 34, 58, 32,
      48, 125]"
  by (simp add: strip_code_fences_def py_strip_def lstrip_def rstrip_def nel_text_def
        is_space_def is_linebreak_def splitlines.simps startswith_def fence_def Let_def)

lemma retry_limited_run:
  "create_jira_tasks (example_env tracker_retry_limited) [req_R1] no_effects =
     (Inl (HTTPError 429),
      \<lparr> posts = [build_fields example_config req_R1,
                  (build_fields example_config req_R1)\<lparr>f_priority := None\<rparr>],
        sleeps = [] \<rparr>)"
proof -
  let ?e = "example_env tracker_retry_limited"
  let ?p = "build_fields example_config req_R1"
  have cfg: "cfg ?e = example_config" by (simp add: example_env_def)
  have "attempt_loop ?e req_R1 ?p 0 no_effects =
     (Inl (HTTPError 429), \<lparr> posts = [?p, ?p\<lparr>f_priority := None\<rparr>], sleeps = [] \<rparr>)"
    by (subst attempt_loop_other)
       (simp_all add: example_env_def tracker_retry_limited_def priority_rejected_response_def
          limited_response_def no_effects_def max_retries_def other_error_def error_body_def
          json_get_def priority_in_def retry_without_priority_def post_def
          raise_for_status_def)
  then show ?thesis
    unfolding create_jira_tasks_def tasks_loop.simps cfg by simp
qed

lemma unreadable_header_run:
  assumes "t = tracker_date_header \<or> t = tracker_negative_header"
  shows "create_jira_tasks (example_env t) [req_R1] no_effects =
     (Inl ValueError, \<lparr> posts = [build_fields example_config req_R1], sleeps = [] \<rparr>)"
proof -
  let ?e = "example_env t"
  let ?p = "build_fields example_config req_R1"
  have cfg: "cfg ?e = example_config" by (simp add: example_env_def)
  have "attempt_loop ?e req_R1 ?p 0 no_effects =
     (Inl ValueError, \<lparr> posts = [?p], sleeps = [] \<rparr>)"
    using assms
    by (subst attempt_loop.simps)
       (auto simp: example_env_def tracker_date_header_def tracker_negative_header_def
          limited_response_def no_effects_def max_retries_def post_def read_retry_after_def
          example_py_int_def sleep_jittered_def)
  then show ?thesis
    unfolding create_jira_tasks_def tasks_loop.simps cfg by simp
qed

lemma tasks_loop_append:
  "tasks_loop e (pre @ rest) created st =
     (case tasks_loop e pre created st of
        (Inl x, st') \<Rightarrow> (Inl x, st')
      | (Inr created', st') \<Rightarrow> tasks_loop e rest created' st')"
proof (induction pre arbitrary: created st)
  case Nil
  show ?case by simp
next
  case (Cons req pre)
  show ?case
    by (simp add: Cons.IH split: prod.splits sum.splits option.splits)
qed

lemma tasks_loop_failure_position:
  "tasks_loop e reqs created0 st = (Inl x, st') \<Longrightarrow>
   \<exists>pre req rest created st1.
     reqs = pre @ req # rest \<and> tasks_loop e pre created0 st = (Inr created, st1) \<and>
     attempt_loop e req (build_fields (cfg e) req) 0 st1 = (Inl x, st')"
proof (induction reqs arbitrary: created0 st)
  case Nil
  then show ?case by simp
next
  case (Cons r rs)
  obtain res st'' where a: "attempt_loop e r (build_fields (cfg e) r) 0 st = (res, st'')"
    by (cases "attempt_loop e r (build_fields (cfg e) r) 0 st")
  show ?case
  proof (cases res)
    case (Inl y)
    with Cons.prems a have "y = x" "st'' = st'" by simp_all
    with a Inl have "r # rs = [] @ r # rs \<and> tasks_loop e [] created0 st = (Inr created0, st) \<and>
          attempt_loop e r (build_fields (cfg e) r) 0 st = (Inl x, st')"
      by simp
    then show ?thesis by blast
  next
    case (Inr t)
    define created' where "created' = (case t of None \<Rightarrow> created0 | Some v \<Rightarrow> created0 @ [v])"
    have step: "tasks_loop e (r # pre) created0 st = tasks_loop e pre created' st''" for pre
      using a Inr by (simp add: created'_def split: option.splits)
    from Cons.prems step [of rs] have "tasks_loop e rs created' st'' = (Inl x, st')" by simp
    from Cons.IH [OF this] obtain pre req rest created st1 where
      ih: "rs = pre @ req # rest" "tasks_loop e pre created' st'' = (Inr created, st1)"
          "attempt_loop e req (build_fields (cfg e) req) 0 st1 = (Inl x, st')"
      by blast
    have "r # rs = (r # pre) @ req # rest" using ih(1) by simp
    moreover have "tasks_loop e (r # pre) created0 st = (Inr created, st1)"
      using step [of pre] ih(2) by simp
    ultimately show ?thesis using ih(3) by blast
  qed
qed

lemma validate_all_error: "validate_all p js = Inl x \<Longrightarrow> x = ValidationError"
  by (cases js) (auto split: sum.splits)

lemma validate_response_object_error:
  "validate_response p (JObj kvs) = Inl x \<Longrightarrow> x = ValidationError"
  by (auto simp: validate_response_def split: sum.splits option.splits json.splits)

lemma validate_requirement_rejected:
  assumes "case as_dict p j of
             None \<Rightarrow> True
           | Some m \<Rightarrow> map_of m ''id'' = None \<or> map_of m ''title'' = None"
  shows "validate_requirement p j = Inl ValidationError"
  using assms
  by (auto simp: validate_requirement_def required_field_def split: sum.splits option.splits)

section \<open>The claims\<close>



text \<open>
  Claim C2, as stated, fails. A 429 that answers the retry without priority is not waited
  for and not retried: the engine raises at once, after two calls and no sleep. The same
  holds for a 429 whose \<open>Retry-After\<close> is a date, which \<open>int()\<close> rejects, and for one
  whose \<open>Retry-After\<close> is negative, which \<open>time.sleep\<close> rejects: one call, no sleep.
\<close>

theorem rate_limit_counterexample:
  "create_jira_tasks (example_env tracker_retry_limited) [req_R1] no_effects =
     (Inl (HTTPError 429),
      \<lparr> posts = [build_fields example_config req_R1,
                  (build_fields example_config req_R1)\<lparr>f_priority := None\<rparr>],
        sleeps = [] \<rparr>)
   \<and> create_jira_tasks (example_env tracker_date_header) [req_R1] no_effects =
     (Inl ValueError, \<lparr> posts = [build_fields example_config req_R1], sleeps = [] \<rparr>)
   \<and> create_jira_tasks (example_env tracker_negative_header) [req_R1] no_effects =
     (Inl ValueError, \<lparr> posts = [build_fields example_config req_R1], sleeps = [] \<rparr>)"
  using retry_limited_run unreadable_header_run [of tracker_date_header]
    unreadable_header_run [of tracker_negative_header]
  by simp

text \<open>
  Claim C2, amended. When a call of the attempt loop is answered with 429 and the
  \<open>Retry-After\<close> header is absent (then \<open>d\<close> is 60) or read by \<open>int()\<close> as \<open>d\<close>: on the
  first three attempts, if the floating-point sum \<open>w\<close> of \<open>d\<close> and the next value of
  \<open>random.random()\<close> is a delay that \<open>time.sleep\<close> accepts, the engine sleeps \<open>w\<close> and
  posts the same payload again; on the fourth attempt it raises the HTTP error of the
  429. A 429 that answers the retry without priority raises at once, with no sleep. No
  requirement is slept for more than 3 times, and an exception raised for a requirement
  ends the batch.
\<close>

theorem rate_limit_backoff:
  "(status_code (tracker e (length (posts st)) payload) = 429 \<and>
    (case retry_after (tracker e (length (posts st)) payload) of
       None \<Rightarrow> d = 60
     | Some s \<Rightarrow> py_int e s = Some d) \<longrightarrow>
      (attempt < 3 \<and> float_add e d (jitter e (length (sleeps st))) = Some w \<and>
       0 \<le> w \<and> w \<le> max_sleep e \<longrightarrow>
         attempt_loop e req payload attempt st =
         attempt_loop e req payload (Suc attempt)
           (st\<lparr>posts := posts st @ [payload], sleeps := sleeps st @ [w]\<rparr>))
    \<and> (attempt = 3 \<longrightarrow>
         attempt_loop e req payload attempt st =
         (Inl (HTTPError 429), st\<lparr>posts := posts st @ [payload]\<rparr>)))
   \<and> (attempt \<le> 3 \<and> status_code (tracker e (length (posts st)) payload) \<noteq> 201 \<and>
      status_code (tracker e (length (posts st)) payload) \<noteq> 429 \<and>
      body (tracker e (length (posts st)) payload) = Some (JObj kvs) \<and>
      map_of kvs ''errors'' = Some (JObj es) \<and> ''priority'' \<in> fst ` set es \<and>
      status_code (tracker e (Suc (length (posts st))) (payload\<lparr>f_priority := None\<rparr>)) = 429 \<longrightarrow>
        (\<exists>x. attempt_loop e req payload attempt st =
           (Inl x, st\<lparr>posts := posts st @ [payload, payload\<lparr>f_priority := None\<rparr>]\<rparr>)))
   \<and> length (sleeps (snd (attempt_loop e req payload 0 st))) \<le> length (sleeps st) + 3
   \<and> (attempt_loop e req (build_fields (cfg e) req) 0 st = (Inl x, st') \<longrightarrow>
        tasks_loop e (req # rest) created st = (Inl x, st'))"
proof -
  let ?r = "tracker e (length (posts st)) payload"
  let ?p2 = "payload\<lparr>f_priority := None\<rparr>"
  let ?st1 = "st\<lparr>posts := posts st @ [payload]\<rparr>"
  have step: "attempt_loop e req payload attempt st =
         attempt_loop e req payload (Suc attempt)
           (st\<lparr>posts := posts st @ [payload], sleeps := sleeps st @ [w]\<rparr>)"
    if limited: "status_code ?r = 429"
      and header: "case retry_after ?r of None \<Rightarrow> d = 60 | Some s \<Rightarrow> py_int e s = Some d"
      and sleep: "attempt < 3" "float_add e d (jitter e (length (sleeps st))) = Some w"
                 "0 \<le> w" "w \<le> max_sleep e"
  proof -
    have rd: "read_retry_after e ?r = Inr d"
      using header by (auto simp: read_retry_after_def split: option.splits)
    have "attempt < max_retries" using sleep(1) by (simp add: max_retries_def)
    from attempt_loop_429_retry [OF limited rd sleep(2,3,4) this] show ?thesis .
  qed
  have last: "attempt_loop e req payload attempt st = (Inl (HTTPError 429), ?st1)"
    if limited: "status_code ?r = 429"
      and header: "case retry_after ?r of None \<Rightarrow> d = 60 | Some s \<Rightarrow> py_int e s = Some d"
      and "attempt = 3"
  proof -
    have rd: "read_retry_after e ?r = Inr d"
      using header by (auto simp: read_retry_after_def split: option.splits)
    have "attempt = max_retries" using that(3) by (simp add: max_retries_def)
    from attempt_loop_429_exhausted [OF limited rd this] show ?thesis .
  qed
  have retry: "\<exists>x. attempt_loop e req payload attempt st =
           (Inl x, st\<lparr>posts := posts st @ [payload, ?p2]\<rparr>)"
    if "attempt \<le> 3" and ne: "status_code ?r \<noteq> 201" "status_code ?r \<noteq> 429"
      and rej: "body ?r = Some (JObj kvs)" "map_of kvs ''errors'' = Some (JObj es)"
               "''priority'' \<in> fst ` set es"
      and l2: "status_code (tracker e (Suc (length (posts st))) ?p2) = 429"
  proof -
    have le: "attempt \<le> max_retries" using that(1) by (simp add: max_retries_def)
    have loop: "attempt_loop e req payload attempt st = retry_without_priority e req payload ?st1"
      using attempt_loop_other [OF ne le] other_error_rejected [OF rej] by simp
    have r2: "tracker e (Suc (length (posts st))) ?p2 = tracker e (length (posts ?st1)) ?p2"
      by simp
    have st2: "st\<lparr>posts := posts st @ [payload, ?p2]\<rparr> = ?st1\<lparr>posts := posts ?st1 @ [?p2]\<rparr>"
      by simp
    from retry_without_priority_result [OF refl r2 st2, where req = req] l2
    obtain x where "retry_without_priority e req payload ?st1 =
                    (Inl x, st\<lparr>posts := posts st @ [payload, ?p2]\<rparr>)"
      by auto
    with loop show ?thesis by simp
  qed
  have count: "length (sleeps (snd (attempt_loop e req payload 0 st))) \<le> length (sleeps st) + 3"
    using attempt_loop_effects [of e req payload 0 st "fst (attempt_loop e req payload 0 st)"
        "snd (attempt_loop e req payload 0 st)"]
    by (simp add: max_retries_def)
  have abort: "attempt_loop e req (build_fields (cfg e) req) 0 st = (Inl x, st') \<longrightarrow>
            tasks_loop e (req # rest) created st = (Inl x, st')"
    by simp
  from step last retry count abort show ?thesis by blast
qed

theorem rate_limit_backoff_witness:
  "create_jira_tasks (example_env tracker_backoff) [req_R1] no_effects =
     (Inr [\<lparr> requirement_id = ''R1'', jira_key = JStr ''PRD-1'',
              jira_url = (''https://t.example'', JStr ''PRD-1'') \<rparr>],
      \<lparr> posts = [build_fields example_config req_R1, build_fields example_config req_R1,
                  build_fields example_config req_R1],
        sleeps = [5 / 2, 3 / 2] \<rparr>)"
proof -
  let ?e = "example_env tracker_backoff"
  let ?p = "build_fields example_config req_R1"
  let ?s1 = "\<lparr> posts = [?p], sleeps = [5 / 2] \<rparr>"
  let ?s2 = "\<lparr> posts = [?p, ?p], sleeps = [5 / 2, 3 / 2] \<rparr>"
  have a1: "status_code (tracker ?e (length (posts no_effects)) ?p) = 429 \<and>
            (case retry_after (tracker ?e (length (posts no_effects)) ?p) of
               None \<Rightarrow> (2::int) = 60 | Some s \<Rightarrow> py_int ?e s = Some 2)"
    and b1: "(0::nat) < 3 \<and> float_add ?e 2 (jitter ?e (length (sleeps no_effects))) = Some (5 / 2)
             \<and> (0::real) \<le> 5 / 2 \<and> 5 / 2 \<le> max_sleep ?e"
    by (simp_all add: example_env_def no_effects_def limited_response_def example_py_int_def
          tracker_backoff_def)
  have a2: "status_code (tracker ?e (length (posts ?s1)) ?p) = 429 \<and>
            (case retry_after (tracker ?e (length (posts ?s1)) ?p) of
               None \<Rightarrow> (1::int) = 60 | Some s \<Rightarrow> py_int ?e s = Some 1)"
    and b2: "Suc 0 < 3 \<and> float_add ?e 1 (jitter ?e (length (sleeps ?s1))) = Some (3 / 2)
             \<and> (0::real) \<le> 3 / 2 \<and> 3 / 2 \<le> max_sleep ?e"
    by (simp_all add: example_env_def limited_response_def example_py_int_def
          tracker_backoff_def)
  have s1: "attempt_loop ?e req_R1 ?p 0 no_effects = attempt_loop ?e req_R1 ?p (Suc 0) ?s1"
    using rate_limit_backoff [where e = ?e and st = no_effects and payload = ?p and d = 2
            and attempt = 0 and w = "5 / 2" and req = req_R1,
            THEN conjunct1, THEN mp, OF a1, THEN conjunct1, THEN mp, OF b1]
    by (simp add: no_effects_def)
  have s2: "attempt_loop ?e req_R1 ?p (Suc 0) ?s1 = attempt_loop ?e req_R1 ?p (Suc (Suc 0)) ?s2"
    using rate_limit_backoff [where e = ?e and st = ?s1 and payload = ?p and d = 1
            and attempt = "Suc 0" and w = "3 / 2" and req = req_R1,
            THEN conjunct1, THEN mp, OF a2, THEN conjunct1, THEN mp, OF b2]
    by simp
  have s3: "attempt_loop ?e req_R1 ?p (Suc (Suc 0)) ?s2 =
     (Inr (Some \<lparr> requirement_id = ''R1'', jira_key = JStr ''PRD-1'',
              jira_url = (''https://t.example'', JStr ''PRD-1'') \<rparr>),
      \<lparr> posts = [?p, ?p, ?p], sleeps = [5 / 2, 3 / 2] \<rparr>)"
    by (subst attempt_loop_201)
       (simp_all add: example_env_def example_config_def req_R1_def created_response_def
          tracker_backoff_def max_retries_def make_task_def issue_key_def
          base_url_example [unfolded example_config_def])
  have cfg: "cfg ?e = example_config" by (simp add: example_env_def)
  show ?thesis
    unfolding create_jira_tasks_def tasks_loop.simps cfg s1 s2 s3 by simp
qed

text \<open>
  Claim C3. The analysis handler stores the requirement list under the key it is given;
  popping that key returns exactly the stored list and removes the entry, and the task
  handler then works on that list. A pop of the same key afterwards, or of a key that is
  not in the cache, finds nothing, and the task handler answers with the message asking
  to upload the document again, leaving cache and tracker untouched.
\<close>

theorem pending_review_roundtrip:
  "(analyze_with_openai p content_raw = Inr analysis \<longrightarrow>
      snd (handle_message_events p k content_raw c) = cache_put k (requirements analysis) c)
   \<and> cache_pop k (cache_put k reqs c) = (Some reqs, c(k := None))
   \<and> handle_create_tasks e k (cache_put k reqs c) st =
       (case create_jira_tasks e reqs st of
          (Inl x, st') \<Rightarrow> (FailedToCreate, c(k := None), st')
        | (Inr created, st') \<Rightarrow>
            (CreatedTasks (map (\<lambda>item. (jira_url item, jira_key item, requirement_id item))
                               created), c(k := None), st'))
   \<and> cache_pop k (c(k := None)) = (None, c(k := None))
   \<and> handle_create_tasks e k (c(k := None)) st = (NoLongerCached, c(k := None), st)
   \<and> (c k' = None \<longrightarrow> handle_create_tasks e k' c st = (NoLongerCached, c, st))"
proof -
  have absent: "c k' = None \<Longrightarrow> c(k' := None) = c" by (rule ext) simp
  show ?thesis
    by (auto simp: handle_message_events_def handle_create_tasks_def cache_put_def cache_pop_def
          absent split: prod.splits sum.splits)
qed

theorem pending_review_roundtrip_witness:
  "snd (handle_message_events example_parser ''key-1'' (Some example_text) Map.empty)
     = [''key-1'' \<mapsto> [req_parsed]]
   \<and> handle_create_tasks (example_env tracker_backoff) ''key-2'' Map.empty no_effects
     = (NoLongerCached, Map.empty, no_effects)"
  using pending_review_roundtrip [of example_parser "Some example_text"
          "\<lparr> requirements = [req_parsed], document_summary = None, total_requirements = 1 \<rparr>"
          "''key-1''" Map.empty "[]" "example_env tracker_backoff" no_effects "''key-2''"]
        analyze_example
  by (simp add: cache_put_def)

text \<open>
  Claim C4, as stated, fails. With a tracker that creates the ticket of the first
  requirement (201) and rejects the second, the engine ends in the raised exception, which
  carries no created task, and the handler posts the bare failure message.
\<close>

theorem partial_results_counterexample:
  "status_code (tracker (example_env tracker_second_fails) 0
                  (build_fields example_config req_R1)) = 201
   \<and> create_jira_tasks (example_env tracker_second_fails) [req_R1, req_R2] no_effects =
     (Inl (JiraApiErrorFields (JArr []) (JObj [(''summary'', JStr ''Summary is too long'')])),
      \<lparr> posts = [build_fields example_config req_R1, build_fields example_config req_R2],
        sleeps = [] \<rparr>)
   \<and> fst (handle_create_tasks (example_env tracker_second_fails) ''key-1''
            [''key-1'' \<mapsto> [req_R1, req_R2]] no_effects) = FailedToCreate"
  by (simp add: second_fails_run handle_create_tasks_def cache_pop_def)
     (simp add: example_env_def tracker_second_fails_def created_response_def)

text \<open>
  Claim C4, amended. When a requirement fails after the requirements before it in the
  batch were handled without exception, the engine ends in that exception and returns
  no list: the tasks \<open>created\<close> for the earlier requirements are not surfaced. The handler
  posts only the general failure message, the cache entry is consumed, and the create
  calls made so far stay made. Every failure of the engine is of this kind: it is the
  failure of one requirement, after the ones before it went through.
\<close>

theorem failure_discards_created:
  assumes earlier: "create_jira_tasks e pre st = (Inr created, st1)"
      and failing: "attempt_loop e req (build_fields (cfg e) req) 0 st1 = (Inl x, st2)"
      and cached: "c k = Some (pre @ req # rest)"
  shows "create_jira_tasks e (pre @ req # rest) st = (Inl x, st2)
       \<and> handle_create_tasks e k c st = (FailedToCreate, c(k := None), st2)
       \<and> (\<exists>ps qs. posts st1 = posts st @ ps \<and> posts st2 = posts st1 @ qs)
       \<and> (create_jira_tasks e reqs st0 = (Inl y, st3) \<longrightarrow>
            (\<exists>pre' req' rest' created' st1'.
               reqs = pre' @ req' # rest' \<and>
               create_jira_tasks e pre' st0 = (Inr created', st1') \<and>
               attempt_loop e req' (build_fields (cfg e) req') 0 st1' = (Inl y, st3)))"
proof -
  have run: "create_jira_tasks e (pre @ req # rest) st = (Inl x, st2)"
    using earlier failing unfolding create_jira_tasks_def tasks_loop_append by simp
  have msg: "handle_create_tasks e k c st = (FailedToCreate, c(k := None), st2)"
    using run cached by (simp add: handle_create_tasks_def cache_pop_def)
  from tasks_loop_effects [OF earlier [unfolded create_jira_tasks_def]]
  obtain ps where ps: "posts st1 = posts st @ ps" by blast
  from attempt_loop_effects [OF failing]
  obtain qs where qs: "posts st2 = posts st1 @ qs" by blast
  have pos: "create_jira_tasks e reqs st0 = (Inl y, st3) \<longrightarrow>
            (\<exists>pre' req' rest' created' st1'.
               reqs = pre' @ req' # rest' \<and>
               create_jira_tasks e pre' st0 = (Inr created', st1') \<and>
               attempt_loop e req' (build_fields (cfg e) req') 0 st1' = (Inl y, st3))"
    unfolding create_jira_tasks_def using tasks_loop_failure_position by blast
  from run msg ps qs pos show ?thesis by blast
qed

theorem failure_discards_created_witness:
  "create_jira_tasks (example_env tracker_second_fails) [req_R1] no_effects =
     (Inr [\<lparr> requirement_id = ''R1'', jira_key = JStr ''PRD-1'',
              jira_url = (''https://t.example'', JStr ''PRD-1'') \<rparr>],
      \<lparr> posts = [build_fields example_config req_R1], sleeps = [] \<rparr>)
   \<and> handle_create_tasks (example_env tracker_second_fails) ''key-1''
     [''key-1'' \<mapsto> [req_R1, req_R2]] no_effects =
   (FailedToCreate, Map.empty,
    \<lparr> posts = [build_fields example_config req_R1, build_fields example_config req_R2],
      sleeps = [] \<rparr>)"
proof -
  let ?e = "example_env tracker_second_fails"
  let ?p1 = "build_fields example_config req_R1"
  let ?p2 = "build_fields example_config req_R2"
  let ?s1 = "\<lparr> posts = [?p1], sleeps = [] \<rparr>"
  let ?s2 = "\<lparr> posts = [?p1, ?p2], sleeps = [] \<rparr>"
  let ?x = "JiraApiErrorFields (JArr []) (JObj [(''summary'', JStr ''Summary is too long'')])"
  have cfg: "cfg ?e = example_config" by (simp add: example_env_def)
  have a1: "attempt_loop ?e req_R1 ?p1 0 no_effects =
     (Inr (Some \<lparr> requirement_id = ''R1'', jira_key = JStr ''PRD-1'',
              jira_url = (''https://t.example'', JStr ''PRD-1'') \<rparr>), ?s1)"
    by (subst attempt_loop_201)
       (simp_all add: example_env_def tracker_second_fails_def created_response_def
          no_effects_def max_retries_def make_task_def issue_key_def
          base_url_example req_R1_def)
  have earlier: "create_jira_tasks ?e [req_R1] no_effects =
     (Inr [\<lparr> requirement_id = ''R1'', jira_key = JStr ''PRD-1'',
              jira_url = (''https://t.example'', JStr ''PRD-1'') \<rparr>], ?s1)"
    unfolding create_jira_tasks_def tasks_loop.simps cfg a1 by simp
  have failing: "attempt_loop ?e req_R2 (build_fields (cfg ?e) req_R2) 0 ?s1 = (Inl ?x, ?s2)"
    unfolding cfg
    by (subst attempt_loop_other)
       (simp_all add: example_env_def tracker_second_fails_def summary_rejected_response_def
          max_retries_def other_error_def error_body_def json_get_def priority_in_def)
  have cached: "[''key-1'' \<mapsto> [req_R1, req_R2]] ''key-1'' = Some ([req_R1] @ req_R2 # [])"
    by simp
  from failure_discards_created [where c = "[''key-1'' \<mapsto> [req_R1, req_R2]]"
         and k = "''key-1''" and rest = "[]", OF earlier failing cached] earlier
  show ?thesis by simp
qed

text \<open>
  Claim C5, as stated, fails. The parser has no single failure for malformed output:
  text that is not JSON ends in the \<open>ValueError\<close> of the \<open>except\<close> clause, an element
  without title in pydantic's validation error, and JSON that is not an object in a
  bare \<open>TypeError\<close>.
\<close>

theorem malformed_output_counterexample:
  "analyze_with_openai example_parser (Some not_json_text) = Inl CouldNotParseJSON
   \<and> analyze_with_openai example_parser (Some missing_title_text) = Inl ValidationError
   \<and> analyze_with_openai example_parser (Some array_text) = Inl TypeError"
proof -
  have s1: "strip_code_fences not_json_text = not_json_text"
    by (simp add: strip_code_fences_def py_strip_def lstrip_def rstrip_def not_json_text_def
        is_space_def is_linebreak_def splitlines.simps startswith_def fence_def Let_def)
  have s2: "strip_code_fences missing_title_text = missing_title_text"
    by (simp add: strip_code_fences_def py_strip_def lstrip_def rstrip_def
        missing_title_text_def
        is_space_def is_linebreak_def splitlines.simps startswith_def fence_def Let_def)
  have s3: "strip_code_fences array_text = array_text"
    by (simp add: strip_code_fences_def py_strip_def lstrip_def rstrip_def array_text_def
        is_space_def is_linebreak_def splitlines.simps startswith_def fence_def Let_def)
  have l1: "json_loads example_parser not_json_text = Inl JSONDecodeError"
    by (simp add: example_parser_def not_json_text_def example_text_def missing_title_text_def
          array_text_def)
  have l2: "json_loads example_parser missing_title_text = Inr missing_title_data"
    by (simp add: example_parser_def) (simp add: example_text_def missing_title_text_def)
  have l3: "json_loads example_parser array_text = Inr (JArr [])"
    by (simp add: example_parser_def)
       (simp add: example_text_def missing_title_text_def array_text_def)
  have v2: "validate_response example_parser missing_title_data = Inl ValidationError"
    by (simp add: validate_response_def missing_title_data_def example_parser_def
          validate_requirement_def required_field_def optional_field_def str_list_field_def
          strict_str_def strict_int_def strict_dict_def)
  have v3: "validate_response example_parser (JArr []) = Inl TypeError"
    by (simp add: validate_response_def)
  have ne: "not_json_text \<noteq> []" "missing_title_text \<noteq> []" "array_text \<noteq> []"
    by (simp_all add: not_json_text_def missing_title_text_def array_text_def)
  show ?thesis
    using ne by (simp add: analyze_with_openai_def s1 s2 s3 l1 l2 l3 v2 v3)
qed

text \<open>
  Claim C5, amended. For a model output that is not empty: when \<open>json.loads\<close> rejects
  the fence-stripped text with \<open>JSONDecodeError\<close>, the parser raises the \<open>ValueError\<close> of
  the \<open>except\<close> clause; when the text decodes to a JSON object, the only exception the
  parser raises is pydantic's validation error, and it raises it when \<open>requirements\<close>
  is missing or not an array, and when an element of it is not taken for a dict or has
  no \<open>id\<close> or no \<open>title\<close>. Whatever exception the parser raises, on any output, the
  analysis handler catches it, posts its error message and leaves the cache as it was.
\<close>

theorem malformed_output_fails:
  assumes "raw \<noteq> []"
  shows "(json_loads p (strip_code_fences raw) = Inl JSONDecodeError \<longrightarrow>
            analyze_with_openai p (Some raw) = Inl CouldNotParseJSON)
       \<and> (json_loads p (strip_code_fences raw) = Inr (JObj kvs) \<longrightarrow>
            (\<forall>x. analyze_with_openai p (Some raw) = Inl x \<longrightarrow> x = ValidationError)
          \<and> ((\<forall>js. map_of kvs ''requirements'' \<noteq> Some (JArr js)) \<longrightarrow>
               analyze_with_openai p (Some raw) = Inl ValidationError)
          \<and> (map_of kvs ''requirements'' = Some (JArr js) \<and> j \<in> set js \<and>
              (case as_dict p j of
                 None \<Rightarrow> True
               | Some m \<Rightarrow> map_of m ''id'' = None \<or> map_of m ''title'' = None) \<longrightarrow>
               analyze_with_openai p (Some raw) = Inl ValidationError))
       \<and> (analyze_with_openai p content = Inl x \<longrightarrow>
            handle_message_events p k content c = (UnexpectedError, c))"
proof -
  have A: "analyze_with_openai p (Some raw) = Inl CouldNotParseJSON"
    if "json_loads p (strip_code_fences raw) = Inl JSONDecodeError"
    using that assms by (simp add: analyze_with_openai_def)
  have obj: "analyze_with_openai p (Some raw) = validate_response p (JObj kvs)"
    if "json_loads p (strip_code_fences raw) = Inr (JObj kvs)"
    using that assms by (simp add: analyze_with_openai_def)
  have B1: "\<forall>x. analyze_with_openai p (Some raw) = Inl x \<longrightarrow> x = ValidationError"
    if "json_loads p (strip_code_fences raw) = Inr (JObj kvs)"
    unfolding obj [OF that] using validate_response_object_error by blast
  have B2: "analyze_with_openai p (Some raw) = Inl ValidationError"
    if "json_loads p (strip_code_fences raw) = Inr (JObj kvs)"
      and "\<forall>js. map_of kvs ''requirements'' \<noteq> Some (JArr js)"
    unfolding obj [OF that(1)] using that(2)
    by (auto simp: validate_response_def split: option.splits json.splits)
  have B3: "analyze_with_openai p (Some raw) = Inl ValidationError"
    if l: "json_loads p (strip_code_fences raw) = Inr (JObj kvs)"
      and r: "map_of kvs ''requirements'' = Some (JArr js)"
      and j: "j \<in> set js"
             "case as_dict p j of
                None \<Rightarrow> True
              | Some m \<Rightarrow> map_of m ''id'' = None \<or> map_of m ''title'' = None"
  proof -
    have "validate_all p js = Inl ValidationError"
      by (rule validate_all_fails [OF j(1) validate_requirement_rejected [OF j(2)]])
    then show ?thesis unfolding obj [OF l] using r by (simp add: validate_response_def)
  qed
  have C: "handle_message_events p k content c = (UnexpectedError, c)"
    if "analyze_with_openai p content = Inl x"
    using that by (simp add: handle_message_events_def)
  from A B1 B2 B3 C show ?thesis by blast
qed

theorem malformed_output_fails_witness:
  "analyze_with_openai example_parser (Some not_json_text) = Inl CouldNotParseJSON
   \<and> handle_message_events example_parser ''key-1'' (Some not_json_text) Map.empty
       = (UnexpectedError, Map.empty)
   \<and> analyze_with_openai example_parser (Some missing_title_text) = Inl ValidationError"
proof -
  have s1: "strip_code_fences not_json_text = not_json_text"
    by (simp add: strip_code_fences_def py_strip_def lstrip_def rstrip_def not_json_text_def
        is_space_def is_linebreak_def splitlines.simps startswith_def fence_def Let_def)
  have s2: "strip_code_fences missing_title_text = missing_title_text"
    by (simp add: strip_code_fences_def py_strip_def lstrip_def rstrip_def
        missing_title_text_def
        is_space_def is_linebreak_def splitlines.simps startswith_def fence_def Let_def)
  have ne: "not_json_text \<noteq> []" "missing_title_text \<noteq> []"
    by (simp_all add: not_json_text_def missing_title_text_def)
  have l1: "json_loads example_parser (strip_code_fences not_json_text) = Inl JSONDecodeError"
    unfolding s1
    by (simp add: example_parser_def not_json_text_def example_text_def missing_title_text_def
          array_text_def)
  let ?m = "[(''id'', JStr ''R1'')]"
  let ?kvs = "[(''requirements'', JArr [JObj ?m]), (''total_requirements'', JInt 1)]"
  have l2: "json_loads example_parser (strip_code_fences missing_title_text) = Inr (JObj ?kvs)"
    unfolding s2
    by (simp add: example_parser_def missing_title_data_def)
       (simp add: example_text_def missing_title_text_def)
  have r2: "map_of ?kvs ''requirements'' = Some (JArr [JObj ?m]) \<and> JObj ?m \<in> set [JObj ?m] \<and>
          (case as_dict example_parser (JObj ?m) of
             None \<Rightarrow> True
           | Some m \<Rightarrow> map_of m ''id'' = None \<or> map_of m ''title'' = None)"
    by (simp add: example_parser_def strict_dict_def)
  have a: "analyze_with_openai example_parser (Some not_json_text) = Inl CouldNotParseJSON"
    by (rule malformed_output_fails [OF ne(1), THEN conjunct1, THEN mp, OF l1])
  have b: "handle_message_events example_parser ''key-1'' (Some not_json_text) Map.empty
       = (UnexpectedError, Map.empty)"
    by (rule malformed_output_fails [OF ne(1), THEN conjunct2, THEN conjunct2, THEN mp, OF a])
  have c: "analyze_with_openai example_parser (Some missing_title_text) = Inl ValidationError"
    by (rule malformed_output_fails [OF ne(2), THEN conjunct2, THEN conjunct1, THEN mp, OF l2,
          THEN conjunct2, THEN conjunct2, THEN mp, OF r2])
  from a b c show ?thesis by blast
qed

text \<open>
  Claim C6. Fence-stripping is meant to be lossless and idempotent on valid JSON of the
  expected shape, wrapped or not. The code misses a case: \<open>nel_text\<close> is such a JSON
  text, and its string value holds the line boundary U+0085, so that \<open>str.splitlines\<close>
  cuts inside the string and the last line begins with three backticks. On it,
  stripping twice differs from stripping once, and stripping the fenced text differs
  from stripping the bare text.
\<close>

theorem fence_stripping_nel_text:
  "strip_code_fences (strip_code_fences nel_text) \<noteq> strip_code_fences nel_text
   \<and> strip_code_fences (fence @ 10 # nel_text @ 10 # fence) \<noteq> strip_code_fences nel_text"
  unfolding strip_strip_nel_text strip_fenced_nel_text strip_nel_text by simp

text \<open>
  Where the lines are plain the property holds. Let \<open>t\<close> be a text without surrounding
  whitespace whose first and last line, as \<open>str.splitlines\<close> cuts them, do not begin
  with three backticks. Wrapped in a leading fence line, a trailing fence line or both
  (three backticks and any info string, joined by a line feed), \<open>t\<close> is stripped to the
  same text as \<open>t\<close> alone, namely its lines joined by line feeds; stripping that again
  changes nothing; the parser gives the same result for the wrapped and the bare text;
  and when line feed is the only line boundary in \<open>t\<close>, the stripped text is \<open>t\<close>.
\<close>

theorem fence_stripping_plain_lines:
  assumes t: "t \<noteq> []" "\<not> is_space (hd t)" "\<not> is_space (last t)"
      and lines: "\<not> startswith (hd (splitlines t)) fence"
                 "\<not> startswith (last (splitlines t)) fence"
      and i1: "\<forall>c \<in> set i1. \<not> is_linebreak c"
      and i2: "\<forall>c \<in> set i2. \<not> is_linebreak c"
      and w: "w = t \<or> w = fence @ i1 @ 10 # t \<or> w = t @ 10 # fence @ i2 \<or>
              w = fence @ i1 @ 10 # t @ 10 # fence @ i2"
  shows "strip_code_fences w = strip_code_fences t
       \<and> strip_code_fences w = join_nl (splitlines t)
       \<and> strip_code_fences (strip_code_fences w) = strip_code_fences w
       \<and> analyze_with_openai p (Some w) = analyze_with_openai p (Some t)
       \<and> ((\<forall>c \<in> set t. is_linebreak c \<longrightarrow> c = 10) \<longrightarrow> strip_code_fences w = t)"
proof -
  have plain: "strip_code_fences t = join_nl (splitlines t)"
    by (rule strip_plain [OF t lines])
  have sw: "strip_code_fences w = join_nl (splitlines t)"
    using w plain strip_leading [OF t(1,3) lines(2) i1] strip_trailing [OF t lines(1) i2]
      strip_both [OF t(1,3) i1 i2]
    by auto
  have idem: "strip_code_fences (strip_code_fences w) = strip_code_fences w"
    unfolding sw by (rule strip_joined [OF t lines])
  have ne: "w \<noteq> []" using w t(1) by auto
  have an: "analyze_with_openai p (Some w) = analyze_with_openai p (Some t)"
    using ne t(1) sw plain by (simp add: analyze_with_openai_def)
  have same: "strip_code_fences w = t" if "\<forall>c \<in> set t. is_linebreak c \<longrightarrow> c = 10"
    unfolding sw
    by (rule join_splitlines_nl [OF t(1) not_space_not_linebreak [OF t(3)] that])
  from plain sw idem an same show ?thesis by simp
qed

theorem fence_stripping_plain_lines_witness:
  "strip_code_fences (fence @ [106, 115, 111, 110] @ 10 # example_text @ 10 # fence @ [])
     = example_text
   \<and> analyze_with_openai example_parser
        (Some (fence @ [106, 115, 111, 110] @ 10 # example_text @ 10 # fence @ []))
     = Inr \<lparr> requirements = [req_parsed], document_summary = None, total_requirements = 1 \<rparr>"
proof -
  let ?w = "fence @ [106, 115, 111, 110] @ 10 # example_text @ 10 # fence @ []"
  have nb: "\<forall>c \<in> set example_text. \<not> is_linebreak c"
    by (simp add: example_text_def is_linebreak_def)
  have ne: "example_text \<noteq> []" by (simp add: example_text_def)
  have sp: "\<not> is_space (hd example_text)" "\<not> is_space (last example_text)"
    by (simp_all add: example_text_def is_space_def)
  have sl: "splitlines example_text = [example_text]" by (rule splitlines_no_break [OF ne nb])
  have sw: "\<not> startswith (hd (splitlines example_text)) fence"
           "\<not> startswith (last (splitlines example_text)) fence"
    unfolding sl by (simp_all add: startswith_def fence_def example_text_def)
  have i: "\<forall>c \<in> set [106, 115, 111, 110]. \<not> is_linebreak c" "\<forall>c \<in> set []. \<not> is_linebreak c"
    by (simp_all add: is_linebreak_def)
  have w: "?w = example_text \<or> ?w = fence @ [106, 115, 111, 110] @ 10 # example_text \<or>
           ?w = example_text @ 10 # fence @ [] \<or>
           ?w = fence @ [106, 115, 111, 110] @ 10 # example_text @ 10 # fence @ []"
    by simp
  have only_nl: "\<forall>c \<in> set example_text. is_linebreak c \<longrightarrow> c = 10" using nb by blast
  note inst = fence_stripping_plain_lines [OF ne sp sw i w, of example_parser]
  have a: "strip_code_fences ?w = example_text"
    by (rule inst [THEN conjunct2, THEN conjunct2, THEN conjunct2, THEN conjunct2, THEN mp,
          OF only_nl])
  have b: "analyze_with_openai example_parser (Some ?w) =
           analyze_with_openai example_parser (Some example_text)"
    by (rule inst [THEN conjunct2, THEN conjunct2, THEN conjunct2, THEN conjunct1])
  show ?thesis unfolding b analyze_example using a by simp
qed

text \<open>
  Claim C7. A requirement with a non-empty priority string gets the payload priority of
  the fixed table (\<open>Critical\<close> to \<open>High\<close>, \<open>Major\<close> to \<open>Medium\<close>, \<open>Minor\<close> to
  \<open>Low\<close>); a value that is not in the table is passed on unchanged.
\<close>

theorem priority_lookup:
  "priority req = Some p \<Longrightarrow> p \<noteq> [] \<Longrightarrow>
   f_priority (build_fields c req) =
     Some (if p = ''Critical'' then ''High''
           else if p = ''Major'' then ''Medium''
           else if p = ''Minor'' then ''Low''
           else p)"
  by (simp add: build_fields_def truthy_str_def PRIORITY_MAPPING_def)

theorem priority_lookup_witness:
  "f_priority (build_fields example_config req_R1) = Some ''High'' \<and>
   f_priority (build_fields example_config req_R2) = Some ''Urgent''"
  using priority_lookup [of req_R1 "''Critical''" example_config]
        priority_lookup [of req_R2 "''Urgent''" example_config]
  by (simp add: req_R1_def req_R2_def)

text \<open>
  Claim C9. On the empty requirement list the engine returns the empty list of created
  tasks and the effects are untouched: no create call is issued and nothing is slept.
\<close>

theorem empty_batch: "create_jira_tasks e [] st = (Inr [], st)"
  by (simp add: create_jira_tasks_def)

text \<open>
  Claim C10. The optional fields are tested by truthiness: \<open>estimated_hours\<close> equal to
  0, and \<open>priority\<close> or \<open>assignee\<close> equal to the empty string, give the same payload as
  the absent field, with the corresponding payload key left out.
\<close>

theorem falsy_optional_fields_omitted:
  "build_fields c (req\<lparr>estimated_hours := Some 0\<rparr>)
     = build_fields c (req\<lparr>estimated_hours := None\<rparr>)
   \<and> build_fields c (req\<lparr>priority := Some []\<rparr>) = build_fields c (req\<lparr>priority := None\<rparr>)
   \<and> build_fields c (req\<lparr>assignee := Some []\<rparr>) = build_fields c (req\<lparr>assignee := None\<rparr>)
   \<and> f_timetracking (build_fields c (req\<lparr>estimated_hours := Some 0\<rparr>)) = None
   \<and> f_priority (build_fields c (req\<lparr>priority := Some []\<rparr>)) = None
   \<and> f_assignee (build_fields c (req\<lparr>assignee := Some []\<rparr>)) = None"
  by (simp add: build_fields_def truthy_str_def truthy_int_def split: option.splits)

end
